theory Spec2Isabelle
  imports Main "HOL-Library.Word"
begin

unbundle bit_operations_syntax

section \<open>Machine integers, error codes and the byte source\<close>

text \<open>
  The archiver works on fixed-width unsigned integers (\<open>PHYSFS_uint8\<close> ... \<open>PHYSFS_uint64\<close>);
  \<open>PHYSFS_sint64\<close> values are kept as 64-bit words and read with \<open>sint\<close>.
  Names and link texts are C strings: byte lists, a NUL byte ending the string.
\<close>

type_synonym u8 = "8 word"
type_synonym u16 = "16 word"
type_synonym u32 = "32 word"
type_synonym u64 = "64 word"
type_synonym s64 = "64 word"

datatype PHYSFS_ErrorCode =
    ERR_IO
  | ERR_OUT_OF_MEMORY
  | ERR_CORRUPT
  | ERR_NOT_FOUND
  | ERR_PAST_EOF
  | ERR_READ_ONLY
  | ERR_BAD_PASSWORD
  | ERR_SYMLINK_LOOP
  | ERR_UNSUPPORTED

text \<open>
  A failing call leaves its error code behind (\<open>BAIL_MACRO\<close>) and returns 0 or NULL;
  \<open>ERRPASS\<close> keeps the code the callee left. A result is therefore \<open>Inl code\<close>
  or \<open>Inr value\<close>, and \<open>ebind\<close> is the early return on failure.
\<close>

definition ebind :: "'e + 'a \<Rightarrow> ('a \<Rightarrow> 'e + 'b) \<Rightarrow> 'e + 'b" where
  "ebind m f = (case m of Inl e \<Rightarrow> Inl e | Inr v \<Rightarrow> f v)"

text \<open>
  Modelled from the spec: the byte source (\<open>PHYSFS_Io\<close>) is supplied by the host and is
  not part of the archiver. Its contract (section 6 of the specification: a read-only,
  seekable, length-queryable stream) is modelled by a byte list and a position. A read
  returns the bytes that are left, at most the number asked for; a seek past the end
  fails. A failure of the byte source is reported as \<open>ERR_IO\<close>.
\<close>

record PHYSFS_Io =
  io_data :: "u8 list"
  io_pos :: nat

definition io_length :: "PHYSFS_Io \<Rightarrow> nat" where
  "io_length io = length (io_data io)"

definition io_seek :: "PHYSFS_Io \<Rightarrow> nat \<Rightarrow> PHYSFS_ErrorCode + PHYSFS_Io" where
  "io_seek io p = (if p \<le> length (io_data io) then Inr (io\<lparr>io_pos := p\<rparr>) else Inl ERR_IO)"

definition io_read :: "PHYSFS_Io \<Rightarrow> nat \<Rightarrow> u8 list \<times> PHYSFS_Io" where
  "io_read io len =
     (let bs = take len (drop (io_pos io) (io_data io))
      in (bs, io\<lparr>io_pos := io_pos io + length bs\<rparr>))"

definition io_tell :: "PHYSFS_Io \<Rightarrow> nat" where
  "io_tell io = io_pos io"

text \<open>\<open>__PHYSFS_readAll\<close>: the read succeeded when it returned all \<open>len\<close> bytes.\<close>

definition readAll :: "PHYSFS_Io \<Rightarrow> nat \<Rightarrow> PHYSFS_ErrorCode + (u8 list \<times> PHYSFS_Io)" where
  "readAll io len =
     (case io_read io len of (bs, io') \<Rightarrow> if length bs = len then Inr (bs, io') else Inl ERR_IO)"

text \<open>Little-endian decoding (\<open>PHYSFS_swapULE16/32/64\<close> on the bytes as read).\<close>

fun le_word :: "u8 list \<Rightarrow> 'a::len word" where
  "le_word [] = 0"
| "le_word (b # bs) = ucast b OR push_bit 8 (le_word bs)"

definition readui64 :: "PHYSFS_Io \<Rightarrow> PHYSFS_ErrorCode + (u64 \<times> PHYSFS_Io)" where
  "readui64 io = ebind (readAll io 8) (\<lambda>(bs, io'). Inr (le_word bs, io'))"

definition readui32 :: "PHYSFS_Io \<Rightarrow> PHYSFS_ErrorCode + (u32 \<times> PHYSFS_Io)" where
  "readui32 io = ebind (readAll io 4) (\<lambda>(bs, io'). Inr (le_word bs, io'))"

definition readui16 :: "PHYSFS_Io \<Rightarrow> PHYSFS_ErrorCode + (u16 \<times> PHYSFS_Io)" where
  "readui16 io = ebind (readAll io 2) (\<lambda>(bs, io'). Inr (le_word bs, io'))"

definition readui8 :: "PHYSFS_Io \<Rightarrow> PHYSFS_ErrorCode + (u8 \<times> PHYSFS_Io)" where
  "readui8 io = ebind (readAll io 1) (\<lambda>(bs, io'). Inr (le_word bs, io'))"

section \<open>Entries, archives and open files\<close>

datatype ZipResolveType =
    ZIP_UNRESOLVED_FILE
  | ZIP_UNRESOLVED_SYMLINK
  | ZIP_RESOLVING
  | ZIP_RESOLVED
  | ZIP_DIRECTORY
  | ZIP_BROKEN_FILE
  | ZIP_BROKEN_SYMLINK

record ZIP_AES_Data =
  key_strength :: u8
  salt :: "u8 list"
  pass_verification :: u16
  compression :: u16

text \<open>
  One \<open>ZIPentry\<close> per file of the archive. Entries live in the archive's store and are
  referred to by address (an index of the store); \<open>symlink\<close>, \<open>children\<close> and \<open>sibling\<close>
  are such addresses or NULL. \<open>name\<close> is the buffer of \<open>fnamelen\<close> bytes before its
  final NUL. The chain \<open>hashnext\<close> of a bucket is kept as the list of the addresses on
  it, in chain order (see \<open>ZIPinfo\<close>).
\<close>

record ZIPentry =
  name :: "u8 list"
  symlink :: "nat option"
  resolved :: ZipResolveType
  offset :: u64
  version :: u16
  version_needed :: u16
  general_bits :: u16
  compression_method :: u16
  crc :: u32
  compressed_size :: u64
  uncompressed_size :: u64
  last_mod_time :: s64
  dos_mod_time :: u32
  children :: "nat option"
  sibling :: "nat option"
  aes_data :: ZIP_AES_Data

text \<open>\<open>memset(&entry, '\0', sizeof (entry))\<close>\<close>

definition zero_aes :: ZIP_AES_Data where
  "zero_aes = \<lparr>key_strength = 0, salt = replicate 16 0, pass_verification = 0, compression = 0\<rparr>"

definition zero_entry :: ZIPentry where
  "zero_entry = \<lparr>name = [], symlink = None, resolved = ZIP_UNRESOLVED_FILE, offset = 0,
     version = 0, version_needed = 0, general_bits = 0, compression_method = 0, crc = 0,
     compressed_size = 0, uncompressed_size = 0, last_mod_time = 0, dos_mod_time = 0,
     children = None, sibling = None, aes_data = zero_aes\<rparr>"

text \<open>
  One \<open>ZIPinfo\<close> per open archive. \<open>entries\<close> is the store: address 0 is the embedded
  \<open>root\<close> entry, every allocated entry gets the next free address. \<open>hash\<close> holds one
  chain per bucket (\<open>hashBuckets\<close> is its length).
\<close>

record ZIPinfo =
  info_io :: PHYSFS_Io
  entries :: "ZIPentry list"
  hash :: "nat list list"
  zip64 :: bool
  has_crypto :: bool

record 'z z_stream =
  next_in :: "u8 list"
  avail_out :: u32
  total_out :: nat
  zstate :: "'z option"

record 'k fcrypt_ctx =
  nonce :: "u8 list"
  encr_bfr :: "u8 list"
  encr_ctx :: "'k option"
  encr_pos :: u32

type_synonym crypto_keys = "u32 \<times> u32 \<times> u32"

text \<open>
  One \<open>ZIPfileinfo\<close> per open file. \<open>entry\<close> is the entry the file reads (the stream
  functions only read it). The pending input of the decoder, \<open>avail_in\<close> bytes at
  \<open>next_in\<close> inside \<open>buffer\<close>, is the list \<open>next_in\<close>; \<open>buffer\<close> records whether the
  16 KiB buffer was allocated.
\<close>

record ('z, 'k) ZIPfileinfo =
  entry :: ZIPentry
  finfo_io :: PHYSFS_Io
  compressed_position :: u32
  uncompressed_position :: u32
  buffer :: bool
  crypto_keys :: crypto_keys
  initial_crypto_keys :: crypto_keys
  stream :: "'z z_stream"
  aes_ctx :: "'k fcrypt_ctx"

text \<open>
  The libraries the archiver calls are parameters of the model: the raw-DEFLATE decoder
  (\<open>inflateInit2\<close> gives a return code and a fresh decoder; \<open>inflate\<close> takes the decoder,
  the pending input and the room left in the output and gives the return code, the number of
  input bytes used, the bytes produced and the decoder), the AES file encryption
  (\<open>fcrypt_init\<close> takes mode, password and salt and gives the password verifier and the
  context), \<open>mktime\<close>, and the case-insensitive string hash and comparison of the
  enclosing library.
\<close>

record tm =
  tm_year :: int
  tm_mon :: int
  tm_mday :: int
  tm_hour :: int
  tm_min :: int
  tm_sec :: int
  tm_isdst :: int

record ('z, 'k) zip_env =
  inflateInit2 :: "int \<times> 'z"
  inflate :: "'z \<Rightarrow> u8 list \<Rightarrow> nat \<Rightarrow> int \<times> nat \<times> u8 list \<times> 'z"
  fcrypt_init :: "u8 \<Rightarrow> u8 list \<Rightarrow> u8 list \<Rightarrow> u16 \<times> 'k fcrypt_ctx"
  fcrypt_decrypt :: "u8 list \<Rightarrow> 'k fcrypt_ctx \<Rightarrow> u8 list \<times> 'k fcrypt_ctx"
  aes_encrypt :: "u8 list \<Rightarrow> 'k option \<Rightarrow> u8 list"
  mktime :: "tm \<Rightarrow> s64"
  hashString :: "u8 list \<Rightarrow> u32"
  utf8stricmp :: "u8 list \<Rightarrow> u8 list \<Rightarrow> int"

definition Z_OK :: int where "Z_OK = 0"
definition Z_STREAM_END :: int where "Z_STREAM_END = 1"
definition Z_ERRNO :: int where "Z_ERRNO = - 1"
definition Z_MEM_ERROR :: int where "Z_MEM_ERROR = - 4"

definition ZIP_READBUFSIZE :: nat where "ZIP_READBUFSIZE = 16 * 1024"
definition AES_BLOCK_SIZE :: u32 where "AES_BLOCK_SIZE = 16"
definition ZIP_AES_128_BITS :: u8 where "ZIP_AES_128_BITS = 0x01"
definition ZIP_AES_192_BITS :: u8 where "ZIP_AES_192_BITS = 0x02"
definition ZIP_AES_256_BITS :: u8 where "ZIP_AES_256_BITS = 0x03"
definition COMPMETH_NONE :: u16 where "COMPMETH_NONE = 0"
definition COMPMETH_AES :: u16 where "COMPMETH_AES = 99"

definition ZIP_IS_AES :: "ZIPentry \<Rightarrow> bool" where
  "ZIP_IS_AES e = (key_strength (aes_data e) > ZIP_AES_128_BITS)"

definition zip_entry_is_tradional_crypto :: "ZIPentry \<Rightarrow> bool" where
  "zip_entry_is_tradional_crypto e = (general_bits e AND push_bit 0 1 \<noteq> 0)"

definition zip_entry_ignore_local_header :: "ZIPentry \<Rightarrow> bool" where
  "zip_entry_ignore_local_header e = (general_bits e AND push_bit 3 1 \<noteq> 0)"

section \<open>The traditional PKWARE cipher\<close>

fun crc_bits :: "nat \<Rightarrow> u32 \<Rightarrow> u32" where
  "crc_bits 0 xorval = xorval"
| "crc_bits (Suc i) xorval =
     crc_bits i (if xorval AND 1 \<noteq> 0 then 0xEDB88320 XOR drop_bit 1 xorval
                 else drop_bit 1 xorval)"

definition zip_crypto_crc32 :: "u32 \<Rightarrow> u8 \<Rightarrow> u32" where
  "zip_crypto_crc32 c val = crc_bits 8 ((c XOR ucast val) AND 0xFF) XOR drop_bit 8 c"

fun zip_update_crypto_keys :: "crypto_keys \<Rightarrow> u8 \<Rightarrow> crypto_keys" where
  "zip_update_crypto_keys (k0, k1, k2) val =
     (let k0' = zip_crypto_crc32 k0 val;
          k1' = k1 + (k0' AND 0x000000FF);
          k1'' = (k1' * 134775813) + 1;
          k2' = zip_crypto_crc32 k2 (ucast (drop_bit 24 k1'' AND 0xFF))
      in (k0', k1'', k2'))"

text \<open>
  \<open>tmp\<close> is a 16-bit value; the product is formed in 32 bits (wrapping), and the cast to
  8 bits keeps bits 8..15 of it.
\<close>

fun zip_decrypt_byte :: "crypto_keys \<Rightarrow> u8" where
  "zip_decrypt_byte (k0, k1, k2) =
     (let tmp = (ucast (k2 OR 2) :: u16);
          t = (ucast tmp :: u32)
      in ucast (drop_bit 8 (t * (t XOR 1))))"

text \<open>The decryption loop of \<open>zip_read_decrypt\<close>: the bytes in place, and the keys.\<close>

fun zip_decrypt_loop :: "crypto_keys \<Rightarrow> u8 list \<Rightarrow> u8 list \<times> crypto_keys" where
  "zip_decrypt_loop keys [] = ([], keys)"
| "zip_decrypt_loop keys (b # bs) =
     (let ch = b XOR zip_decrypt_byte keys
      in case zip_decrypt_loop (zip_update_crypto_keys keys ch) bs of
           (out, keys') \<Rightarrow> (ch # out, keys'))"

text \<open>The loop of \<open>zip_prep_crypto_keys\<close> over the header, with its \<open>finalbyte\<close>.\<close>

fun zip_prep_header :: "u8 list \<Rightarrow> crypto_keys \<Rightarrow> u8 \<Rightarrow> crypto_keys \<times> u8" where
  "zip_prep_header [] keys finalbyte = (keys, finalbyte)"
| "zip_prep_header (h # hs) keys finalbyte =
     (let c = h XOR zip_decrypt_byte keys
      in zip_prep_header hs (zip_update_crypto_keys keys c) c)"

text \<open>
  \<open>password\<close> holds the bytes of the C string before its NUL (the loop
  \<open>while ( *password)\<close>); \<open>crypto_header\<close> is the array of 12 bytes.
\<close>

fun zip_password_loop :: "crypto_keys \<Rightarrow> u8 list \<Rightarrow> crypto_keys" where
  "zip_password_loop keys [] = keys"
| "zip_password_loop keys (p # ps) = zip_password_loop (zip_update_crypto_keys keys p) ps"

definition zip_prep_crypto_keys ::
  "('z, 'k) ZIPfileinfo \<Rightarrow> u8 list \<Rightarrow> u8 list \<Rightarrow> PHYSFS_ErrorCode + ('z, 'k) ZIPfileinfo" where
  "zip_prep_crypto_keys finfo crypto_header password =
     (let e = entry finfo;
          usedate = zip_entry_ignore_local_header e;
          verifier = (ucast ((if usedate then drop_bit 8 (dos_mod_time e)
                              else drop_bit 24 (crc e)) AND 0xFF) :: u8);
          keys0 = (305419896, 591751049, 878082192);
          keys1 = zip_password_loop keys0 password
      in case zip_prep_header (take 12 crypto_header) keys1 0 of
           (keys, finalbyte) \<Rightarrow>
             if finalbyte \<noteq> verifier then Inl ERR_BAD_PASSWORD
             else Inr (finfo\<lparr>crypto_keys := keys, initial_crypto_keys := keys\<rparr>))"

text \<open>\<open>memset(finfo, '\0', sizeof (ZIPfileinfo))\<close>\<close>

definition zero_finfo :: "('z, 'k) ZIPfileinfo" where
  "zero_finfo = \<lparr>entry = zero_entry, finfo_io = \<lparr>io_data = [], io_pos = 0\<rparr>,
     compressed_position = 0, uncompressed_position = 0, buffer = False,
     crypto_keys = (0, 0, 0), initial_crypto_keys = (0, 0, 0),
     stream = \<lparr>next_in = [], avail_out = 0, total_out = 0, zstate = None\<rparr>,
     aes_ctx = \<lparr>nonce = replicate 16 0, encr_bfr = replicate 16 0, encr_ctx = None,
       encr_pos = 0\<rparr>\<rparr>"


section \<open>The read stream\<close>

definition ZIP_AES_DEFAULT_PASSWORD :: "u8 list" where
  "ZIP_AES_DEFAULT_PASSWORD =
     map of_char ''8!*MJw=g4e)ah#0BxlcUjl7p*W6jSV!l4qg!31gutTjh.cwJflgfWcd8LhdjaIY0*UYda3Yj@BY9WA''"

definition zlib_error_code :: "int \<Rightarrow> PHYSFS_ErrorCode option" where
  "zlib_error_code rc =
     (if rc = Z_OK then None
      else if rc = Z_STREAM_END then None
      else if rc = Z_ERRNO then Some ERR_IO
      else if rc = Z_MEM_ERROR then Some ERR_OUT_OF_MEMORY
      else Some ERR_CORRUPT)"

text \<open>\<open>initializeZStream\<close> followed by a successful \<open>inflateInit2\<close> with decoder \<open>z\<close>.\<close>

definition initializeZStream :: "'z z_stream" where
  "initializeZStream = \<lparr>next_in = [], avail_out = 0, total_out = 0, zstate = None\<rparr>"

text \<open>
  The nonce increment of \<open>zip_entry_update_aes_offset\<close>:
  \<open>while (j < 8 && !++cx->nonce[j]) ++j\<close>.
\<close>

function nonce_inc :: "nat \<Rightarrow> u8 list \<Rightarrow> u8 list" where
  "nonce_inc j n =
     (if j < 8 then
        (let n' = n[j := n ! j + 1]
         in if n' ! j = 0 then nonce_inc (j + 1) n' else n')
      else n)"
  by pat_completeness auto
termination
  by (relation "measure (\<lambda>(j, n). 8 - j)") auto

text \<open>The loop of \<open>zip_entry_update_aes_offset\<close>, once per byte before the position.\<close>

fun aes_skip :: "('z, 'k) zip_env \<Rightarrow> nat \<Rightarrow> 'k fcrypt_ctx \<Rightarrow> 'k fcrypt_ctx" where
  "aes_skip E 0 cx = cx"
| "aes_skip E (Suc i) cx =
     (let cx' = (if encr_pos cx = AES_BLOCK_SIZE
                 then (let n = nonce_inc 0 (nonce cx)
                       in cx\<lparr>nonce := n, encr_bfr := aes_encrypt E n (encr_ctx cx),
                            encr_pos := 0\<rparr>)
                 else cx)
      in aes_skip E i (cx'\<lparr>encr_pos := encr_pos cx' + 1\<rparr>))"

definition zip_entry_update_aes_offset ::
  "('z, 'k) zip_env \<Rightarrow> ('z, 'k) ZIPfileinfo \<Rightarrow>
     (PHYSFS_ErrorCode + unit) \<times> ('z, 'k) ZIPfileinfo" where
  "zip_entry_update_aes_offset E finfo =
     (let e = entry finfo
      in case fcrypt_init E (key_strength (aes_data e)) ZIP_AES_DEFAULT_PASSWORD
                (salt (aes_data e)) of
           (pass_verifier, cx) \<Rightarrow>
             if pass_verification (aes_data e) \<noteq> pass_verifier
             then (Inl ERR_CORRUPT, finfo\<lparr>aes_ctx := cx\<rparr>)
             else (Inr (), finfo\<lparr>aes_ctx :=
                             aes_skip E (unat (uncompressed_position finfo)) cx\<rparr>))"

text \<open>The AES branch of \<open>zip_read_decrypt\<close>: blocks of 16 bytes, then the rest.\<close>

function fcrypt_decrypt_blocks ::
  "('z, 'k) zip_env \<Rightarrow> u8 list \<Rightarrow> 'k fcrypt_ctx \<Rightarrow> u8 list \<times> 'k fcrypt_ctx" where
  "fcrypt_decrypt_blocks E bs cx =
     (if length bs \<ge> 16 then
        (case fcrypt_decrypt E (take 16 bs) cx of
           (p, cx') \<Rightarrow>
             (case fcrypt_decrypt_blocks E (drop 16 bs) cx' of
                (ps, cx'') \<Rightarrow> (p @ ps, cx'')))
      else if length bs > 0 then fcrypt_decrypt E bs cx
      else ([], cx))"
  by pat_completeness auto
termination
  by (relation "measure (\<lambda>(E, bs, cx). length bs)") auto

definition zip_decrypt_aes ::
  "('z, 'k) zip_env \<Rightarrow> ('z, 'k) ZIPfileinfo \<Rightarrow> u8 list \<Rightarrow>
     (PHYSFS_ErrorCode + u8 list) \<times> ('z, 'k) ZIPfileinfo" where
  "zip_decrypt_aes E finfo bs =
     (case (if encr_pos (aes_ctx finfo) > AES_BLOCK_SIZE
            then zip_entry_update_aes_offset E finfo else (Inr (), finfo)) of
        (Inl err, finfo1) \<Rightarrow> (Inl err, finfo1)
      | (Inr u, finfo1) \<Rightarrow>
          (case fcrypt_decrypt_blocks E bs (aes_ctx finfo1) of
             (out, cx) \<Rightarrow> (Inr out, finfo1\<lparr>aes_ctx := cx\<rparr>)))"

text \<open>The traditional branch of \<open>zip_read_decrypt\<close>.\<close>

definition zip_decrypt_traditional ::
  "('z, 'k) ZIPfileinfo \<Rightarrow> u8 list \<Rightarrow>
     (PHYSFS_ErrorCode + u8 list) \<times> ('z, 'k) ZIPfileinfo" where
  "zip_decrypt_traditional finfo bs =
     (case zip_decrypt_loop (crypto_keys finfo) bs of
        (out, keys) \<Rightarrow> (Inr out, finfo\<lparr>crypto_keys := keys\<rparr>))"

text \<open>
  \<open>zip_read_decrypt\<close>: \<open>Inl\<close> is the return value -1; otherwise the return value
  \<open>br\<close> is the number of the bytes given (the byte source of the model never
  returns -1).
\<close>

definition zip_read_decrypt ::
  "('z, 'k) zip_env \<Rightarrow> ('z, 'k) ZIPfileinfo \<Rightarrow> nat \<Rightarrow>
     (PHYSFS_ErrorCode + u8 list) \<times> ('z, 'k) ZIPfileinfo" where
  "zip_read_decrypt E finfo len =
     (case io_read (finfo_io finfo) len of
        (bs, io') \<Rightarrow>
          (let finfo1 = finfo\<lparr>finfo_io := io'\<rparr>
           in if zip_entry_is_tradional_crypto (entry finfo) \<and> length bs > 0 then
                (if ZIP_IS_AES (entry finfo) then zip_decrypt_aes E finfo1 bs
                 else zip_decrypt_traditional finfo1 bs)
              else (Inr bs, finfo1)))"

text \<open>
  The result of \<open>ZIP_read\<close>: the return value, the error code the call left behind (if
  any), the bytes put into the caller's buffer, and the file.
\<close>

type_synonym ('z, 'k) read_result =
  "int \<times> PHYSFS_ErrorCode option \<times> u8 list \<times> ('z, 'k) ZIPfileinfo"

text \<open>
  One call of \<open>inflate(&finfo->stream, Z_SYNC_FLUSH)\<close>: the decoder never uses more input
  than is pending nor produces more than \<open>avail_out\<close>; on a stream that was never
  initialised it returns \<open>Z_STREAM_ERROR\<close> (-2).
\<close>

definition inflate_call ::
  "('z, 'k) zip_env \<Rightarrow> 'z z_stream \<Rightarrow> int \<times> u8 list \<times> 'z z_stream" where
  "inflate_call E str =
     (case zstate str of
        None \<Rightarrow> (- 2, [], str)
      | Some z \<Rightarrow>
          (case inflate E z (next_in str) (unat (avail_out str)) of
             (rc, used, produced, z') \<Rightarrow>
               (let out = take (unat (avail_out str)) produced
                in (rc, out,
                    str\<lparr>next_in := drop used (next_in str),
                        avail_out := avail_out str - of_nat (length out),
                        total_out := total_out str + length out,
                        zstate := Some z'\<rparr>))))"

text \<open>
  The refill of the input buffer in \<open>ZIP_read\<close> (\<open>if (finfo->stream.avail_in == 0)\<close>):
  \<open>None\<close> is the \<open>break\<close> on \<open>br <= 0\<close>, with the error code left behind.
\<close>

definition ZIP_read_refill ::
  "('z, 'k) zip_env \<Rightarrow> ('z, 'k) ZIPfileinfo \<Rightarrow>
     (PHYSFS_ErrorCode option + unit) \<times> ('z, 'k) ZIPfileinfo" where
  "ZIP_read_refill E finfo =
     (if next_in (stream finfo) = [] then
        (let br = sint (compressed_size (entry finfo) - ucast (compressed_position finfo))
         in if br > 0 then
              (case zip_read_decrypt E finfo (nat (min br (int ZIP_READBUFSIZE))) of
                 (Inl err, finfo1) \<Rightarrow> (Inl (Some err), finfo1)
               | (Inr bs, finfo1) \<Rightarrow>
                   if bs = [] then (Inl None, finfo1)
                   else (Inr (),
                         finfo1\<lparr>compressed_position :=
                                   compressed_position finfo1 + of_nat (length bs),
                                 stream := (stream finfo1)\<lparr>next_in := bs\<rparr>\<rparr>))
            else (Inr (), finfo))
      else (Inr (), finfo))"

partial_function (option) ZIP_read_loop ::
  "('z, 'k) zip_env \<Rightarrow> int \<Rightarrow> int \<Rightarrow> u8 list \<Rightarrow> ('z, 'k) ZIPfileinfo \<Rightarrow>
     ('z, 'k) read_result option" where
  "ZIP_read_loop E maxread retval out finfo =
     (if retval < maxread then
        (case ZIP_read_refill E finfo of
           (Inl err, finfo1) \<Rightarrow> Some (retval, err, out, finfo1)
         | (Inr u, finfo1) \<Rightarrow>
             (case inflate_call E (stream finfo1) of
                (rc, produced, str) \<Rightarrow>
                  (let finfo2 = finfo1\<lparr>stream := str\<rparr>;
                       retval2 = retval + int (length produced)
                   in if rc \<noteq> Z_OK
                      then Some (retval2, zlib_error_code rc, out @ produced, finfo2)
                      else ZIP_read_loop E maxread retval2 (out @ produced) finfo2)))
      else Some (retval, None, out, finfo))"

text \<open>\<open>if (retval > 0) finfo->uncompressed_position += (PHYSFS_uint32) retval\<close>\<close>

definition ZIP_read_finish :: "('z, 'k) read_result \<Rightarrow> ('z, 'k) read_result" where
  "ZIP_read_finish r =
     (case r of (retval, err, out, finfo) \<Rightarrow>
        (retval, err, out,
         if retval > 0
         then finfo\<lparr>uncompressed_position := uncompressed_position finfo + word_of_int retval\<rparr>
         else finfo))"

text \<open>
  \<open>ZIP_read\<close>: \<open>len\<close> is the caller's 64-bit length, read as signed for \<open>maxread\<close>;
  \<open>None\<close> is a call that never returns.
\<close>

definition ZIP_read ::
  "('z, 'k) zip_env \<Rightarrow> ('z, 'k) ZIPfileinfo \<Rightarrow> u64 \<Rightarrow> ('z, 'k) read_result option" where
  "ZIP_read E finfo len =
     (let e = entry finfo;
          avail = sint (uncompressed_size e - ucast (uncompressed_position finfo));
          maxread = (if avail < sint len then avail else sint len)
      in if maxread = 0 then Some (0, None, [], finfo)
         else if compression_method e = COMPMETH_NONE then
           (case zip_read_decrypt E finfo (unat (word_of_int maxread :: u64)) of
              (Inl err, finfo1) \<Rightarrow> Some (- 1, Some err, [], finfo1)
            | (Inr bs, finfo1) \<Rightarrow>
                Some (ZIP_read_finish (int (length bs), None, bs, finfo1)))
         else
           map_option ZIP_read_finish
             (ZIP_read_loop E maxread 0 []
                (finfo\<lparr>stream := (stream finfo)\<lparr>avail_out := word_of_int maxread\<rparr>\<rparr>)))"

text \<open>The result of \<open>ZIP_seek\<close>: 1 or the error code of the failure, and the file.\<close>

type_synonym ('z, 'k) seek_result = "(PHYSFS_ErrorCode + unit) \<times> ('z, 'k) ZIPfileinfo"

text \<open>The branch of \<open>ZIP_seek\<close> for stored entries that are not encrypted.\<close>

definition ZIP_seek_plain :: "('z, 'k) ZIPfileinfo \<Rightarrow> u64 \<Rightarrow> ('z, 'k) seek_result" where
  "ZIP_seek_plain finfo ofs =
     (let newpos = ofs + offset (entry finfo)
      in case io_seek (finfo_io finfo) (unat newpos) of
           Inl err \<Rightarrow> (Inl err, finfo)
         | Inr io' \<Rightarrow>
             (Inr (), finfo\<lparr>finfo_io := io', uncompressed_position := ucast ofs\<rparr>))"

text \<open>The branch of \<open>ZIP_seek\<close> for AES entries.\<close>

definition ZIP_seek_aes :: "('z, 'k) ZIPfileinfo \<Rightarrow> u64 \<Rightarrow> ('z, 'k) seek_result" where
  "ZIP_seek_aes finfo ofs =
     (let finfo1 = finfo\<lparr>aes_ctx := (aes_ctx finfo)\<lparr>encr_pos := AES_BLOCK_SIZE + 1\<rparr>\<rparr>;
          newpos = ofs + offset (entry finfo)
      in case io_seek (finfo_io finfo1) (unat newpos) of
           Inl err \<Rightarrow> (Inl err, finfo1)
         | Inr io' \<Rightarrow>
             (Inr (), finfo1\<lparr>finfo_io := io', uncompressed_position := ucast ofs\<rparr>))"

text \<open>
  The rewind of the last branch (\<open>if (offset < finfo->uncompressed_position)\<close>): a fresh
  decoder, the byte source at the start of the data, both positions 0 and the initial keys.
\<close>

definition ZIP_seek_rewind ::
  "('z, 'k) zip_env \<Rightarrow> ('z, 'k) ZIPfileinfo \<Rightarrow> PHYSFS_ErrorCode + ('z, 'k) ZIPfileinfo" where
  "ZIP_seek_rewind E finfo =
     (let e = entry finfo; encrypted = zip_entry_is_tradional_crypto e
      in case inflateInit2 E of
           (rc, z) \<Rightarrow>
             if rc \<noteq> Z_OK
             then Inl (case zlib_error_code rc of Some err \<Rightarrow> err | None \<Rightarrow> ERR_CORRUPT)
             else
               (case io_seek (finfo_io finfo)
                       (unat (offset e + (if encrypted then 12 else 0))) of
                  Inl err \<Rightarrow> Inl err
                | Inr io' \<Rightarrow>
                    (let finfo1 = finfo\<lparr>finfo_io := io',
                           stream := initializeZStream\<lparr>zstate := Some z\<rparr>,
                           uncompressed_position := 0, compressed_position := 0\<rparr>
                     in Inr (if encrypted
                             then finfo1\<lparr>crypto_keys := initial_crypto_keys finfo1\<rparr>
                             else finfo1))))"

text \<open>
  The loop \<open>while (finfo->uncompressed_position != offset)\<close>: the position is compared
  as a 64-bit value, \<open>maxread\<close> is the difference cut to 32 bits and to the 512 bytes of
  the buffer. A short read ends the seek with the error code the read left behind.
\<close>

partial_function (option) ZIP_seek_loop ::
  "('z, 'k) zip_env \<Rightarrow> u64 \<Rightarrow> ('z, 'k) ZIPfileinfo \<Rightarrow> ('z, 'k) seek_result option" where
  "ZIP_seek_loop E ofs finfo =
     (if (ucast (uncompressed_position finfo) :: u64) \<noteq> ofs then
        (let m = (ucast (ofs - ucast (uncompressed_position finfo)) :: u32);
             maxread = (if m > 512 then 512 else m)
         in Option.bind (ZIP_read E finfo (ucast maxread))
              (\<lambda>(retval, err, out, finfo1).
                 if retval \<noteq> uint maxread
                 then Some (Inl (case err of Some c \<Rightarrow> c | None \<Rightarrow> ERR_IO), finfo1)
                 else ZIP_seek_loop E ofs finfo1))
      else Some (Inr (), finfo))"

definition ZIP_seek_decode ::
  "('z, 'k) zip_env \<Rightarrow> ('z, 'k) ZIPfileinfo \<Rightarrow> u64 \<Rightarrow> ('z, 'k) seek_result option" where
  "ZIP_seek_decode E finfo ofs =
     (if ofs < ucast (uncompressed_position finfo) then
        (case ZIP_seek_rewind E finfo of
           Inl err \<Rightarrow> Some (Inl err, finfo)
         | Inr finfo1 \<Rightarrow> ZIP_seek_loop E ofs finfo1)
      else ZIP_seek_loop E ofs finfo)"

definition ZIP_seek ::
  "('z, 'k) zip_env \<Rightarrow> ('z, 'k) ZIPfileinfo \<Rightarrow> u64 \<Rightarrow> ('z, 'k) seek_result option" where
  "ZIP_seek E finfo ofs =
     (let e = entry finfo; encrypted = zip_entry_is_tradional_crypto e
      in if ofs > uncompressed_size e then Some (Inl ERR_PAST_EOF, finfo)
         else if \<not> encrypted \<and> compression_method e = COMPMETH_NONE
         then Some (ZIP_seek_plain finfo ofs)
         else if ZIP_IS_AES e then Some (ZIP_seek_aes finfo ofs)
         else ZIP_seek_decode E finfo ofs)"

definition ZIP_tell :: "('z, 'k) ZIPfileinfo \<Rightarrow> u32" where
  "ZIP_tell finfo = uncompressed_position finfo"

definition ZIP_length :: "('z, 'k) ZIPfileinfo \<Rightarrow> s64" where
  "ZIP_length finfo = uncompressed_size (entry finfo)"

section \<open>Concrete inputs\<close>

text \<open>
  Libraries for the evaluation of concrete inputs: a decoder that copies its input, an AES
  library that leaves the bytes as they are, a clock that answers 1, a hash that puts every
  name into bucket 0, and a comparison that tells equal from different names.
\<close>

definition test_env :: "(unit, unit) zip_env" where
  "test_env = \<lparr>inflateInit2 = (Z_OK, ()),
      inflate = (\<lambda>z inp room. (Z_OK, min (length inp) room, take room inp, ())),
      fcrypt_init = (\<lambda>mode pwd slt. (0, \<lparr>nonce = replicate 16 0, encr_bfr = replicate 16 0,
                                            encr_ctx = Some (), encr_pos = 0\<rparr>)),
      fcrypt_decrypt = (\<lambda>bs cx. (bs, cx)),
      aes_encrypt = (\<lambda>n k. n),
      mktime = (\<lambda>t. 1),
      hashString = (\<lambda>s. 0),
      utf8stricmp = (\<lambda>a b. if a = b then 0 else 1)\<rparr>"

text \<open>
  An open file over a stored entry with the traditional-encryption bit and a recorded AES
  key strength of 128 bits.
\<close>

definition c5_file :: "(unit, unit) ZIPfileinfo" where
  "c5_file = zero_finfo\<lparr>entry := zero_entry\<lparr>general_bits := 1, uncompressed_size := 2,
                 aes_data := zero_aes\<lparr>key_strength := 1\<rparr>\<rparr>,
               finfo_io := \<lparr>io_data = [0x11, 0x22], io_pos = 0\<rparr>,
               crypto_keys := (1, 2, 3), initial_crypto_keys := (1, 2, 3)\<rparr>"

text \<open>The same open file with the key strength byte \<open>ks\<close> recorded.\<close>

definition c5_file_strength :: "u8 \<Rightarrow> (unit, unit) ZIPfileinfo" where
  "c5_file_strength ks =
     c5_file\<lparr>entry := (entry c5_file)\<lparr>aes_data := zero_aes\<lparr>key_strength := ks\<rparr>\<rparr>\<rparr>"

text \<open>
  An open file, at position 0, over a stored entry with the traditional-encryption bit and
  an uncompressed size of 5 GiB (a ZIP64 entry).
\<close>

definition c1_file :: "(unit, unit) ZIPfileinfo" where
  "c1_file = zero_finfo\<lparr>entry := zero_entry\<lparr>general_bits := 1,
                 compressed_size := 5368709132, uncompressed_size := 5368709120,
                 resolved := ZIP_RESOLVED\<rparr>,
               crypto_keys := (1, 2, 3), initial_crypto_keys := (1, 2, 3)\<rparr>"

text \<open>
  An open file over a stored entry of 5 GiB that is not encrypted; the four bytes after its
  data are the signature of the central directory.
\<close>

definition c9_file :: "('z, 'k) ZIPfileinfo" where
  "c9_file = zero_finfo\<lparr>entry := zero_entry\<lparr>compressed_size := 5368709120,
                 uncompressed_size := 5368709120, resolved := ZIP_RESOLVED\<rparr>,
               finfo_io := \<lparr>io_data = replicate 5368709120 0x41 @ [0x50, 0x4B, 0x01, 0x02],
                            io_pos = 0\<rparr>\<rparr>"

section \<open>The end-of-central-directory locator\<close>

definition ZIP_LOCAL_FILE_SIG :: u32 where "ZIP_LOCAL_FILE_SIG = 0x04034b50"
definition ZIP_CENTRAL_DIR_SIG :: u32 where "ZIP_CENTRAL_DIR_SIG = 0x02014b50"
definition ZIP_END_OF_CENTRAL_DIR_SIG :: u32 where "ZIP_END_OF_CENTRAL_DIR_SIG = 0x06054b50"
definition ZIP64_EXTENDED_INFO_EXTRA_FIELD_SIG :: u16 where
  "ZIP64_EXTENDED_INFO_EXTRA_FIELD_SIG = 0x0001"
definition ZIP_AES_HEADER_EXTRA_FIELD_SIG :: u16 where "ZIP_AES_HEADER_EXTRA_FIELD_SIG = 0x9901"
definition ZIP_AE1_VENDOR_VERSION :: u16 where "ZIP_AE1_VENDOR_VERSION = 0x0001"
definition ZIP_AE2_VENDOR_VERSION :: u16 where "ZIP_AE2_VENDOR_VERSION = 0x0002"
definition ZIP_AES_VENDOR_ID :: u16 where "ZIP_AES_VENDOR_ID = 0x4541"

text \<open>
  The scan of one buffer, \<open>for (i = maxread - 4; i > 0; i--)\<close>: the index of the
  signature found, or \<open>None\<close> when the loop ends without one. The four bytes at
  \<open>buf[i] .. buf[i + 3]\<close> are the list \<open>take 4 (drop i buf)\<close>.
\<close>

function eocd_scan :: "u8 list \<Rightarrow> int \<Rightarrow> int option" where
  "eocd_scan buf i =
     (if i > 0 then
        (if take 4 (drop (nat i) buf) = [0x50, 0x4B, 0x05, 0x06] then Some i
         else eocd_scan buf (i - 1))
      else None)"
  by pat_completeness auto
termination
  by (relation "measure (\<lambda>(buf, i). nat i)") auto

text \<open>
  \<open>__PHYSFS_readAll\<close> with a signed length: a negative length is a huge unsigned one,
  which no byte source of the model can fill.
\<close>

definition readAll_int :: "PHYSFS_Io \<Rightarrow> int \<Rightarrow> PHYSFS_ErrorCode + (u8 list \<times> PHYSFS_Io)" where
  "readAll_int io len = (if len < 0 then Inl ERR_IO else readAll io (nat len))"

text \<open>
  The loop \<open>while ((totalread < filelen) && (totalread < 65557))\<close> of
  \<open>zip_find_end_of_central_dir\<close>. After the first pass the buffer is the \<open>maxread - 4\<close>
  bytes read at \<open>filepos\<close> followed by \<open>extra\<close>, the first four bytes of the buffer
  before. The result is the position returned, or the error code of the failure (-1).
\<close>

partial_function (option) eocd_loop ::
  "PHYSFS_Io \<Rightarrow> int \<Rightarrow> int \<Rightarrow> int \<Rightarrow> int \<Rightarrow> u8 list \<Rightarrow> (PHYSFS_ErrorCode + int) option" where
  "eocd_loop io filelen maxread filepos totalread extra =
     (if totalread < filelen \<and> totalread < 65557 then
        (case io_seek io (nat filepos) of
           Inl err \<Rightarrow> Some (Inl err)
         | Inr io1 \<Rightarrow>
             (case (if totalread \<noteq> 0 then readAll_int io1 (maxread - 4)
                    else readAll_int io1 maxread) of
                Inl err \<Rightarrow> Some (Inl err)
              | Inr (bs, io2) \<Rightarrow>
                  (let buf = (if totalread \<noteq> 0 then bs @ extra else bs);
                       totalread' = totalread + (if totalread \<noteq> 0 then maxread - 4 else maxread);
                       extra' = take 4 buf
                   in case eocd_scan buf (maxread - 4) of
                        Some i \<Rightarrow> Some (Inr (filepos + i))
                      | None \<Rightarrow>
                          (let filepos' = filepos - (maxread - 4)
                           in eocd_loop io2 filelen maxread
                                (if filepos' < 0 then 0 else filepos') totalread' extra'))))
      else Some (Inl ERR_UNSUPPORTED))"

definition zip_find_end_of_central_dir :: "PHYSFS_Io \<Rightarrow> (PHYSFS_ErrorCode + int) option" where
  "zip_find_end_of_central_dir io =
     (let filelen = int (io_length io)
      in if 256 < filelen then eocd_loop io filelen 256 (filelen - 256) 0 [0, 0, 0, 0]
         else eocd_loop io filelen filelen 0 0 [0, 0, 0, 0])"

section \<open>The local file header\<close>

text \<open>
  The checks of \<open>zip_parse_local\<close> up to the two length fields; the entry is not written
  before they are read. \<open>!ui16 != entry->compression_method\<close> compares the negation of
  the method read (0 or 1) with the method of the entry.
\<close>

definition zip_parse_local_header ::
  "PHYSFS_Io \<Rightarrow> ZIPentry \<Rightarrow> PHYSFS_ErrorCode + (u16 \<times> u16 \<times> PHYSFS_Io)" where
  "zip_parse_local_header io e =
     ebind (io_seek io (unat (offset e))) (\<lambda>io.
     ebind (readui32 io) (\<lambda>(ui32, io).
       if ui32 \<noteq> ZIP_LOCAL_FILE_SIG then Inl ERR_CORRUPT else
     ebind (readui16 io) (\<lambda>(ui16, io).
       if ui16 \<noteq> version_needed e then Inl ERR_CORRUPT else
     ebind (readui16 io) (\<lambda>(ui16, io).
     ebind (readui16 io) (\<lambda>(ui16, io).
       if ZIP_IS_AES e \<and> (if ui16 = 0 then 1 else 0) \<noteq> compression_method e
       then Inl ERR_CORRUPT else
     ebind (readui32 io) (\<lambda>(ui32, io).
     ebind (readui32 io) (\<lambda>(ui32, io).
       if ui32 \<noteq> 0 \<and> ui32 \<noteq> crc e then Inl ERR_CORRUPT else
     ebind (readui32 io) (\<lambda>(ui32, io).
       if ui32 \<noteq> 0 \<and> ui32 \<noteq> 0xFFFFFFFF \<and> ucast ui32 \<noteq> compressed_size e
       then Inl ERR_CORRUPT else
     ebind (readui32 io) (\<lambda>(ui32, io).
       if ui32 \<noteq> 0 \<and> ui32 \<noteq> 0xFFFFFFFF \<and> ucast ui32 \<noteq> uncompressed_size e
       then Inl ERR_CORRUPT else
     ebind (readui16 io) (\<lambda>(fnamelen, io).
     ebind (readui16 io) (\<lambda>(extralen, io).
       Inr (fnamelen, extralen, io))))))))))))"

text \<open>
  The salt loops of \<open>zip_parse_local\<close>: \<open>n\<close> bytes are read one by one into
  \<open>salt[0..n-1]\<close>; a byte that cannot be read fails with \<open>ERR_CORRUPT\<close> and keeps the
  bytes stored before it.
\<close>

fun read_salt ::
  "nat \<Rightarrow> nat \<Rightarrow> PHYSFS_Io \<Rightarrow> ZIPentry \<Rightarrow> (PHYSFS_ErrorCode + PHYSFS_Io) \<times> ZIPentry" where
  "read_salt 0 i io e = (Inr io, e)"
| "read_salt (Suc n) i io e =
     (case readui8 io of
        Inl err \<Rightarrow> (Inl ERR_CORRUPT, e)
      | Inr (ui8, io') \<Rightarrow>
          read_salt n (Suc i) io'
            (e\<lparr>aes_data := (aes_data e)\<lparr>salt := (salt (aes_data e))[i := ui8]\<rparr>\<rparr>))"

definition read_salt_if ::
  "bool \<Rightarrow> nat \<Rightarrow> (PHYSFS_ErrorCode + PHYSFS_Io) \<times> ZIPentry \<Rightarrow>
     (PHYSFS_ErrorCode + PHYSFS_Io) \<times> ZIPentry" where
  "read_salt_if c n st =
     (case st of
        (Inl err, e) \<Rightarrow> (Inl err, e)
      | (Inr io, e) \<Rightarrow>
          if c then
            (case read_salt n 0 io e of
               (Inl err, e') \<Rightarrow> (Inl err, e')
             | (Inr io', e') \<Rightarrow> (Inr io', e'\<lparr>offset := offset e' + of_nat n\<rparr>))
          else (Inr io, e))"

text \<open>The part of \<open>zip_parse_local\<close> under \<open>if (ZIP_IS_AES(entry))\<close>.\<close>

definition zip_parse_local_aes ::
  "PHYSFS_Io \<Rightarrow> ZIPentry \<Rightarrow> (PHYSFS_ErrorCode + PHYSFS_Io) \<times> ZIPentry" where
  "zip_parse_local_aes io e =
     (if COMPMETH_NONE \<noteq> compression_method e then (Inl ERR_CORRUPT, e)
      else case io_seek io (unat (offset e)) of
             Inl err \<Rightarrow> (Inl ERR_CORRUPT, e)
           | Inr io1 \<Rightarrow>
               (let ks = key_strength (aes_data e)
                in case read_salt_if (ks = ZIP_AES_256_BITS) 16
                          (read_salt_if (ks = ZIP_AES_192_BITS) 12
                             (read_salt_if (ks = ZIP_AES_128_BITS) 8 (Inr io1, e))) of
                     (Inl err, e') \<Rightarrow> (Inl err, e')
                   | (Inr io2, e') \<Rightarrow>
                       (case readui16 io2 of
                          Inl err \<Rightarrow> (Inl ERR_CORRUPT, e')
                        | Inr (pv, io3) \<Rightarrow>
                            (Inr io3,
                             e'\<lparr>aes_data := (aes_data e')\<lparr>pass_verification := pv\<rparr>,
                                offset := offset e' + 2\<rparr>))))"

text \<open>
  \<open>zip_parse_local\<close>: the result (the byte source after the call, or the error code of
  the failure) and the entry as the call leaves it.
\<close>

definition zip_parse_local ::
  "PHYSFS_Io \<Rightarrow> ZIPentry \<Rightarrow> (PHYSFS_ErrorCode + PHYSFS_Io) \<times> ZIPentry" where
  "zip_parse_local io e =
     (case zip_parse_local_header io e of
        Inl err \<Rightarrow> (Inl err, e)
      | Inr (fnamelen, extralen, io1) \<Rightarrow>
          (let e1 = e\<lparr>offset := offset e + (ucast fnamelen + ucast extralen + 30)\<rparr>
           in if ZIP_IS_AES e1 then zip_parse_local_aes io1 e1 else (Inr io1, e1)))"

text \<open>The little-endian field of \<open>n\<close> bytes at position \<open>p\<close> of the bytes \<open>d\<close>.\<close>

definition le_at :: "u8 list \<Rightarrow> nat \<Rightarrow> nat \<Rightarrow> 'a::len word" where
  "le_at d p n = le_word (take n (drop p d))"

text \<open>
  An entry as the central directory gives it, and a local file header for it whose CRC
  field holds \<open>crc_bytes\<close>: version needed 20, compressed size \<open>0xFFFFFFFF\<close>,
  uncompressed size 5, a name of one byte and no extra field.
\<close>

definition c3_entry :: ZIPentry where
  "c3_entry = zero_entry\<lparr>version_needed := 20, crc := 0x12345678, compressed_size := 7,
                uncompressed_size := 5\<rparr>"

definition c3_header :: "u8 list \<Rightarrow> u8 list" where
  "c3_header crc_bytes = [0x50, 0x4B, 0x03, 0x04, 0x14, 0, 0, 0, 0, 0, 0, 0, 0, 0] @ crc_bytes @
     [0xFF, 0xFF, 0xFF, 0xFF, 5, 0, 0, 0, 1, 0, 0, 0, 0x61]"

text \<open>
  The same entry recorded as AES of 256 bits, stored, and its local file header (method
  1, whose negation is the method 0 of the entry) followed by the name, 16 bytes of salt
  and the password verifier.
\<close>

definition c3_aes_entry :: ZIPentry where
  "c3_aes_entry = c3_entry\<lparr>aes_data := zero_aes\<lparr>key_strength := 3\<rparr>\<rparr>"

definition c3_aes_header :: "u8 list \<Rightarrow> u8 list" where
  "c3_aes_header crc_bytes = [0x50, 0x4B, 0x03, 0x04, 0x14, 0, 0, 0, 1, 0, 0, 0, 0, 0] @ crc_bytes @
     [0xFF, 0xFF, 0xFF, 0xFF, 5, 0, 0, 0, 1, 0, 0, 0, 0x61] @ replicate 16 0x55 @ [0x34, 0x12]"

text \<open>The archive without entries: the 22 bytes of an end-of-central-directory record.\<close>

definition empty_zip :: "u8 list" where
  "empty_zip = [0x50, 0x4B, 0x05, 0x06, 0, 0, 0, 0, 0, 0, 0, 0, 0, 0, 0, 0, 0, 0, 0, 0, 0, 0]"


text \<open>
  An archive without entries behind 249 bytes of other data, with an archive comment of
  235 bytes: 506 bytes, the end-of-central-directory record at position 249.
\<close>

definition comment_zip :: "u8 list" where
  "comment_zip = replicate 249 0x20 @ [0x50, 0x4B, 0x05, 0x06, 0, 0, 0, 0, 0, 0, 0, 0, 0, 0, 0, 0,
      0, 0, 0, 0, 235, 0] @ replicate 235 0x20"

section \<open>Loading the central directory\<close>

text \<open>
  A C string is the bytes of a buffer before its first NUL. The \<open>name\<close> of an entry is
  kept as this string; every function that takes it (\<open>strlen\<close>, \<open>strrchr\<close>, the hash and
  the comparison) reads it as such.
\<close>

definition cstr :: "u8 list \<Rightarrow> u8 list" where
  "cstr buf = takeWhile (\<lambda>b. b \<noteq> 0) buf"

definition CH_SLASH :: u8 where "CH_SLASH = 0x2F"
definition CH_BACKSLASH :: u8 where "CH_BACKSLASH = 0x5C"

text \<open>
  \<open>zip_convert_dos_path\<close> on a buffer: when the host byte of \<open>version\<close> is 0 (FAT), every
  backslash of the string in the buffer becomes a slash.
\<close>

definition zip_convert_dos_path :: "ZIPentry \<Rightarrow> u8 list \<Rightarrow> u8 list" where
  "zip_convert_dos_path e path =
     (let hosttype = (ucast (drop_bit 8 (version e) AND 0xFF) :: u8)
      in if hosttype = 0
         then map (\<lambda>b. if b = CH_BACKSLASH then CH_SLASH else b) (cstr path)
                @ drop (length (cstr path)) path
         else path)"

definition zip_version_does_symlinks :: "u32 \<Rightarrow> bool" where
  "zip_version_does_symlinks v =
     (let hosttype = (ucast (drop_bit 8 v AND 0xFF) :: u8)
      in if hosttype = 0 \<or> hosttype = 1 \<or> hosttype = 2 \<or> hosttype = 4 \<or> hosttype = 6
            \<or> hosttype = 11 \<or> hosttype = 14 \<or> hosttype = 13 \<or> hosttype = 15
            \<or> hosttype = 18
         then False else True)"

definition UNIX_FILETYPE_MASK :: u16 where "UNIX_FILETYPE_MASK = 0xF000"
definition UNIX_FILETYPE_SYMLINK :: u16 where "UNIX_FILETYPE_SYMLINK = 0xA000"

definition zip_has_symlink_attr :: "ZIPentry \<Rightarrow> u32 \<Rightarrow> bool" where
  "zip_has_symlink_attr e extern_attr =
     (let xattr = (ucast (drop_bit 16 extern_attr AND 0xFFFF) :: u16)
      in zip_version_does_symlinks (ucast (version e))
         \<and> uncompressed_size e > 0
         \<and> xattr AND UNIX_FILETYPE_MASK = UNIX_FILETYPE_SYMLINK)"

definition zip_dos_time_to_physfs_time :: "('z, 'k) zip_env \<Rightarrow> u32 \<Rightarrow> s64" where
  "zip_dos_time_to_physfs_time E dostime0 =
     (let dosdate = drop_bit 16 dostime0 AND 0xFFFF;
          dostime = dostime0 AND 0xFFFF
      in mktime E
           \<lparr>tm_year = uint (drop_bit 9 dosdate AND 0x7F) + 80,
            tm_mon = uint (drop_bit 5 dosdate AND 0x0F) - 1,
            tm_mday = uint (dosdate AND 0x1F),
            tm_hour = uint (drop_bit 11 dostime AND 0x1F),
            tm_min = uint (drop_bit 5 dostime AND 0x3F),
            tm_sec = uint (push_bit 1 dostime AND 0x3E),
            tm_isdst = - 1\<rparr>)"

text \<open>
  The fixed fields of a central directory record, in the order \<open>zip_load_entry\<close> reads
  them: the entry so far, the three lengths, the starting disk, the external attributes
  and the offset of the local header.
\<close>

definition zip_load_fixed ::
  "('z, 'k) zip_env \<Rightarrow> PHYSFS_Io \<Rightarrow>
     PHYSFS_ErrorCode + (ZIPentry \<times> u16 \<times> u16 \<times> u16 \<times> u32 \<times> u32 \<times> u64 \<times> PHYSFS_Io)" where
  "zip_load_fixed E io =
     ebind (readui32 io) (\<lambda>(ui32, io).
       if ui32 \<noteq> ZIP_CENTRAL_DIR_SIG then Inl ERR_CORRUPT else
     ebind (readui16 io) (\<lambda>(ver, io).
     ebind (readui16 io) (\<lambda>(ver_needed, io).
     ebind (readui16 io) (\<lambda>(gbits, io).
     ebind (readui16 io) (\<lambda>(method, io).
     ebind (readui32 io) (\<lambda>(dostime, io).
     ebind (readui32 io) (\<lambda>(crc32, io).
     ebind (readui32 io) (\<lambda>(csize, io).
     ebind (readui32 io) (\<lambda>(usize, io).
     ebind (readui16 io) (\<lambda>(fnamelen, io).
     ebind (readui16 io) (\<lambda>(extralen, io).
     ebind (readui16 io) (\<lambda>(commentlen, io).
     ebind (readui16 io) (\<lambda>(disk16, io).
     ebind (readui16 io) (\<lambda>(internal_attr, io).
     ebind (readui32 io) (\<lambda>(external_attr, io).
     ebind (readui32 io) (\<lambda>(ofs32, io).
       Inr (zero_entry\<lparr>version := ver, version_needed := ver_needed, general_bits := gbits,
              compression_method := method, dos_mod_time := dostime,
              last_mod_time := zip_dos_time_to_physfs_time E dostime, crc := crc32,
              compressed_size := ucast csize, uncompressed_size := ucast usize\<rparr>,
            fnamelen, extralen, commentlen, ucast disk16, external_attr, ucast ofs32,
            io)))))))))))))))))"

text \<open>
  The Zip64 extended information of \<open>zip_load_entry\<close>: each value that was
  \<open>0xFFFFFFFF\<close> is read in its long form, and the record must end with it.
\<close>

definition zip64_extra ::
  "PHYSFS_Io \<Rightarrow> u16 \<Rightarrow> ZIPentry \<Rightarrow> u64 \<Rightarrow> u32 \<Rightarrow>
     PHYSFS_ErrorCode + (PHYSFS_Io \<times> ZIPentry \<times> u64 \<times> u32)" where
  "zip64_extra io len e ofs disk =
     ebind (if uncompressed_size e = 0xFFFFFFFF
            then (if len < 8 then Inl ERR_CORRUPT
                  else ebind (readui64 io)
                         (\<lambda>(v, io'). Inr (io', len - 8, e\<lparr>uncompressed_size := v\<rparr>)))
            else Inr (io, len, e)) (\<lambda>(io, len, e).
     ebind (if compressed_size e = 0xFFFFFFFF
            then (if len < 8 then Inl ERR_CORRUPT
                  else ebind (readui64 io)
                         (\<lambda>(v, io'). Inr (io', len - 8, e\<lparr>compressed_size := v\<rparr>)))
            else Inr (io, len, e)) (\<lambda>(io, len, e).
     ebind (if ofs = 0xFFFFFFFF
            then (if len < 8 then Inl ERR_CORRUPT
                  else ebind (readui64 io) (\<lambda>(v, io'). Inr (io', len - 8, v)))
            else Inr (io, len, ofs)) (\<lambda>(io, len, ofs).
     ebind (if disk = 0xFFFFFFFF
            then (if len < 8 then Inl ERR_CORRUPT
                  else ebind (readui32 io) (\<lambda>(v, io'). Inr (io', len - 4, v)))
            else Inr (io, len, disk)) (\<lambda>(io, len, disk).
       if len \<noteq> 0 then Inl ERR_CORRUPT else Inr (io, e, ofs, disk)))))"

text \<open>A read whose failure is reported as \<open>ERR_CORRUPT\<close>.\<close>

definition or_corrupt :: "PHYSFS_ErrorCode + 'a \<Rightarrow> PHYSFS_ErrorCode + 'a" where
  "or_corrupt m = (case m of Inl err \<Rightarrow> Inl ERR_CORRUPT | Inr v \<Rightarrow> Inr v)"

text \<open>The WinZip AES extra field of \<open>zip_load_entry\<close>.\<close>

definition aes_extra :: "PHYSFS_Io \<Rightarrow> ZIPentry \<Rightarrow> PHYSFS_ErrorCode + (PHYSFS_Io \<times> ZIPentry)" where
  "aes_extra io e =
     ebind (or_corrupt (readui16 io)) (\<lambda>(zip_vendor, io).
       if zip_vendor \<noteq> ZIP_AE1_VENDOR_VERSION \<and> zip_vendor \<noteq> ZIP_AE2_VENDOR_VERSION
       then Inl ERR_CORRUPT else
     ebind (or_corrupt (readui16 io)) (\<lambda>(zip_vendor, io).
       if zip_vendor \<noteq> ZIP_AES_VENDOR_ID then Inl ERR_CORRUPT else
     ebind (or_corrupt (readui8 io)) (\<lambda>(ks, io).
     ebind (or_corrupt (readui16 io)) (\<lambda>(comp, io).
       if comp \<noteq> 0
       then Inl ERR_CORRUPT
       else Inr (io, e\<lparr>aes_data := (aes_data e)\<lparr>key_strength := ks, compression := comp\<rparr>,
                       compression_method := COMPMETH_NONE\<rparr>)))))"

text \<open>
  What a successful read or seek does to the byte source; these facts carry the
  termination of the loops below.
\<close>

lemma ebind_InrE:
  assumes "ebind m f = Inr r"
  obtains v where "m = Inr v" and "f v = Inr r"
  using assms by (cases m) (simp_all add: ebind_def)

lemma readAll_Inr:
  "readAll io n = Inr (bs, io') \<Longrightarrow> 0 < n \<Longrightarrow>
   io_data io' = io_data io \<and> io_pos io' = io_pos io + n \<and> io_pos io + n \<le> length (io_data io)"
  by (auto simp: readAll_def io_read_def Let_def split: if_splits)

lemma readui32_Inr:
  "readui32 io = Inr (v, io') \<Longrightarrow>
   io_data io' = io_data io \<and> io_pos io' = io_pos io + 4 \<and> io_pos io + 4 \<le> length (io_data io)"
  unfolding readui32_def by (erule ebind_InrE) (auto dest: readAll_Inr)

lemma readui64_Inr:
  "readui64 io = Inr (v, io') \<Longrightarrow>
   io_data io' = io_data io \<and> io_pos io' = io_pos io + 8 \<and> io_pos io + 8 \<le> length (io_data io)"
  unfolding readui64_def by (erule ebind_InrE) (auto dest: readAll_Inr)

lemma zip64_extra_Inr:
  assumes "zip64_extra io len e ofs disk = Inr (io', r)"
  shows "io_data io' = io_data io \<and> io_pos io \<le> io_pos io'"
proof -
  from assms [unfolded zip64_extra_def] obtain v1 where
    a1: "(if uncompressed_size e = 0xFFFFFFFF
            then (if len < 8 then Inl ERR_CORRUPT
                  else ebind (readui64 io)
                         (\<lambda>(v, io'). Inr (io', len - 8, e\<lparr>uncompressed_size := v\<rparr>)))
            else Inr (io, len, e)) = Inr v1" and
    b1: "(case v1 of (io, len, e) \<Rightarrow>
     ebind (if compressed_size e = 0xFFFFFFFF
            then (if len < 8 then Inl ERR_CORRUPT
                  else ebind (readui64 io)
                         (\<lambda>(v, io'). Inr (io', len - 8, e\<lparr>compressed_size := v\<rparr>)))
            else Inr (io, len, e)) (\<lambda>(io, len, e).
     ebind (if ofs = 0xFFFFFFFF
            then (if len < 8 then Inl ERR_CORRUPT
                  else ebind (readui64 io) (\<lambda>(v, io'). Inr (io', len - 8, v)))
            else Inr (io, len, ofs)) (\<lambda>(io, len, ofs).
     ebind (if disk = 0xFFFFFFFF
            then (if len < 8 then Inl ERR_CORRUPT
                  else ebind (readui32 io) (\<lambda>(v, io'). Inr (io', len - 4, v)))
            else Inr (io, len, disk)) (\<lambda>(io, len, disk).
       if len \<noteq> 0 then Inl ERR_CORRUPT else Inr (io, e, ofs, disk))))) = Inr (io', r)"
    by (rule ebind_InrE)
  obtain io1 l1 e1 where v1: "v1 = (io1, l1, e1)" by (cases v1)
  from a1 v1 have p1: "io_data io1 = io_data io \<and> io_pos io \<le> io_pos io1"
    by (auto elim!: ebind_InrE dest!: readui64_Inr split: if_splits)
  from b1 [unfolded v1 prod.case] obtain v2 where
    a2: "(if compressed_size e1 = 0xFFFFFFFF
            then (if l1 < 8 then Inl ERR_CORRUPT
                  else ebind (readui64 io1)
                         (\<lambda>(v, io'). Inr (io', l1 - 8, e1\<lparr>compressed_size := v\<rparr>)))
            else Inr (io1, l1, e1)) = Inr v2" and
    b2: "(case v2 of (io, len, e) \<Rightarrow>
     ebind (if ofs = 0xFFFFFFFF
            then (if len < 8 then Inl ERR_CORRUPT
                  else ebind (readui64 io) (\<lambda>(v, io'). Inr (io', len - 8, v)))
            else Inr (io, len, ofs)) (\<lambda>(io, len, ofs).
     ebind (if disk = 0xFFFFFFFF
            then (if len < 8 then Inl ERR_CORRUPT
                  else ebind (readui32 io) (\<lambda>(v, io'). Inr (io', len - 4, v)))
            else Inr (io, len, disk)) (\<lambda>(io, len, disk).
       if len \<noteq> 0 then Inl ERR_CORRUPT else Inr (io, e, ofs, disk)))) = Inr (io', r)"
    by (rule ebind_InrE)
  obtain io2 l2 e2 where v2: "v2 = (io2, l2, e2)" by (cases v2)
  from a2 v2 have p2: "io_data io2 = io_data io1 \<and> io_pos io1 \<le> io_pos io2"
    by (auto elim!: ebind_InrE dest!: readui64_Inr split: if_splits)
  from b2 [unfolded v2 prod.case] obtain v3 where
    a3: "(if ofs = 0xFFFFFFFF
            then (if l2 < 8 then Inl ERR_CORRUPT
                  else ebind (readui64 io2) (\<lambda>(v, io'). Inr (io', l2 - 8, v)))
            else Inr (io2, l2, ofs)) = Inr v3" and
    b3: "(case v3 of (io, len, ofs) \<Rightarrow>
     ebind (if disk = 0xFFFFFFFF
            then (if len < 8 then Inl ERR_CORRUPT
                  else ebind (readui32 io) (\<lambda>(v, io'). Inr (io', len - 4, v)))
            else Inr (io, len, disk)) (\<lambda>(io, len, disk).
       if len \<noteq> 0 then Inl ERR_CORRUPT else Inr (io, e2, ofs, disk))) = Inr (io', r)"
    by (rule ebind_InrE)
  obtain io3 l3 o3 where v3: "v3 = (io3, l3, o3)" by (cases v3)
  from a3 v3 have p3: "io_data io3 = io_data io2 \<and> io_pos io2 \<le> io_pos io3"
    by (auto elim!: ebind_InrE dest!: readui64_Inr split: if_splits)
  from b3 [unfolded v3 prod.case] obtain v4 where
    a4: "(if disk = 0xFFFFFFFF
            then (if l3 < 8 then Inl ERR_CORRUPT
                  else ebind (readui32 io3) (\<lambda>(v, io'). Inr (io', l3 - 4, v)))
            else Inr (io3, l3, disk)) = Inr v4" and
    b4: "(case v4 of (io, len, disk) \<Rightarrow>
       if len \<noteq> 0 then Inl ERR_CORRUPT else Inr (io, e2, o3, disk)) = Inr (io', r)"
    by (rule ebind_InrE)
  obtain io4 l4 d4 where v4: "v4 = (io4, l4, d4)" by (cases v4)
  from a4 v4 have p4: "io_data io4 = io_data io3 \<and> io_pos io3 \<le> io_pos io4"
    by (auto elim!: ebind_InrE dest!: readui32_Inr split: if_splits)
  from b4 v4 have "io' = io4" by (simp split: if_splits)
  with p1 p2 p3 p4 show ?thesis by simp
qed

lemma readui8_Inr:
  "readui8 io = Inr (v, io') \<Longrightarrow>
   io_data io' = io_data io \<and> io_pos io' = io_pos io + 1 \<and> io_pos io + 1 \<le> length (io_data io)"
  unfolding readui8_def by (erule ebind_InrE) (auto dest: readAll_Inr)

lemma readui16_Inr:
  "readui16 io = Inr (v, io') \<Longrightarrow>
   io_data io' = io_data io \<and> io_pos io' = io_pos io + 2 \<and> io_pos io + 2 \<le> length (io_data io)"
  unfolding readui16_def by (erule ebind_InrE) (auto dest: readAll_Inr)

lemma io_seek_Inr:
  "io_seek io p = Inr io' \<Longrightarrow> io_data io' = io_data io \<and> io_pos io' = p"
  by (auto simp: io_seek_def split: if_splits)

lemma or_corrupt_Inr: "or_corrupt m = Inr v \<Longrightarrow> m = Inr v"
  by (cases m) (simp_all add: or_corrupt_def)

lemma aes_extra_Inr:
  assumes "aes_extra io e = Inr (io', e')"
  shows "io_data io' = io_data io \<and> io_pos io \<le> io_pos io'"
proof -
  from assms [unfolded aes_extra_def] obtain v1 io1 v2 io2 v3 io3 v4 io4 where
    "readui16 io = Inr (v1, io1)" "readui16 io1 = Inr (v2, io2)"
    "readui8 io2 = Inr (v3, io3)" "readui16 io3 = Inr (v4, io4)" "io' = io4"
    by (auto elim!: ebind_InrE dest!: or_corrupt_Inr split: if_splits)
  then show ?thesis
    by (auto dest!: readui16_Inr readui8_Inr)
qed

lemma ebind_cong [fundef_cong]:
  "\<lbrakk>m = m'; \<And>v. m' = Inr v \<Longrightarrow> f v = f' v\<rbrakk> \<Longrightarrow> ebind m f = ebind m' f'"
  by (cases m') (simp_all add: ebind_def)

text \<open>
  The loop \<open>while (extralen2 > 4)\<close> of \<open>zip_load_entry\<close> over the extra fields.
  \<open>extralen2\<close> is a 16-bit counter, and \<open>extralen2 -= 4 + len\<close> wraps.
\<close>

function zip_load_extra ::
  "PHYSFS_Io \<Rightarrow> u16 \<Rightarrow> ZIPentry \<Rightarrow> u64 \<Rightarrow> u32 \<Rightarrow>
     PHYSFS_ErrorCode + (PHYSFS_Io \<times> ZIPentry \<times> u64 \<times> u32)" where
  "zip_load_extra io extralen2 e ofs disk =
     (if extralen2 > 4
      then ebind (readui16 io) (\<lambda>(sig, io1).
           ebind (readui16 io1) (\<lambda>(len, io2).
             let si64_2 = io_tell io2 + unat len;
                 extralen2' = extralen2 - (4 + len)
             in if sig = ZIP64_EXTENDED_INFO_EXTRA_FIELD_SIG
                then ebind (zip64_extra io2 len e ofs disk) (\<lambda>(io3, e', ofs', disk').
                       zip_load_extra io3 extralen2' e' ofs' disk')
                else if sig = ZIP_AES_HEADER_EXTRA_FIELD_SIG
                        \<and> compression_method e = COMPMETH_AES
                then ebind (aes_extra io2 e) (\<lambda>(io3, e').
                       zip_load_extra io3 extralen2' e' ofs disk)
                else ebind (io_seek io2 si64_2) (\<lambda>io3.
                       zip_load_extra io3 extralen2' e ofs disk)))
      else Inr (io, e, ofs, disk))"
  by pat_completeness auto
termination
  apply (relation "measure (\<lambda>(io, extralen2, e, ofs, disk). length (io_data io) - io_pos io)")
  apply simp
  apply (auto dest!: readui16_Inr zip64_extra_Inr aes_extra_Inr io_seek_Inr simp: io_tell_def)
  done

declare zip_load_extra.simps [simp del]

text \<open>
  \<open>zip_load_entry\<close>: one record of the central directory. The name is read into a
  buffer of \<open>fnamelen + 1\<close> bytes; the test for a directory looks at the byte
  \<open>name[fnamelen - 1]\<close> of the buffer after \<open>zip_convert_dos_path\<close>. With
  \<open>fnamelen = 0\<close> that byte is the last byte of the zeroed structure before the name,
  which is not a slash. \<open>zip_has_symlink_attr\<close> is given the local copy \<open>entry\<close>,
  which holds the 32-bit sizes of the fixed fields.
\<close>

definition zip_load_entry ::
  "('z, 'k) zip_env \<Rightarrow> PHYSFS_Io \<Rightarrow> bool \<Rightarrow> u64 \<Rightarrow> PHYSFS_ErrorCode + (ZIPentry \<times> PHYSFS_Io)" where
  "zip_load_entry E io is_zip64 ofs_fixup =
     ebind (zip_load_fixed E io)
       (\<lambda>(entry, fnamelen, extralen, commentlen, starting_disk, external_attr, offset, io).
     ebind (readAll io (unat fnamelen)) (\<lambda>(buf, io).
       let nm = zip_convert_dos_path entry buf;
           retval =
             (if nm \<noteq> [] \<and> last nm = CH_SLASH
              then entry\<lparr>name := cstr (butlast nm), symlink := None, resolved := ZIP_DIRECTORY\<rparr>
              else entry\<lparr>name := cstr nm, symlink := None,
                     resolved := (if zip_has_symlink_attr entry external_attr
                                  then ZIP_UNRESOLVED_SYMLINK else ZIP_UNRESOLVED_FILE)\<rparr>);
           si64 = io_tell io
       in ebind (zip_load_extra io extralen retval offset starting_disk)
            (\<lambda>(io, retval, offset, starting_disk).
              if starting_disk \<noteq> 0 then Inl ERR_CORRUPT else
              ebind (io_seek io (si64 + unat extralen + unat commentlen)) (\<lambda>io.
                Inr (retval\<lparr>offset := offset + ofs_fixup\<rparr>, io)))))"

text \<open>
  A central directory record made on a unix host (version made by \<open>0x031E\<close>) for the
  name \<open>l\<close>, with the external attributes \<open>0xA1FF0000\<close> of a symbolic link and the
  given uncompressed size.
\<close>

definition c4_record :: "u8 \<Rightarrow> u8 list" where
  "c4_record usize = [0x50, 0x4B, 0x01, 0x02, 0x1E, 0x03, 0x0A, 0, 0, 0, 0, 0, 0, 0, 0, 0,
     0, 0, 0, 0, usize, 0, 0, 0, usize, 0, 0, 0, 1, 0, 0, 0, 0, 0, 0, 0, 0, 0,
     0, 0, 0xFF, 0xA1, 0, 0, 0, 0, 0x6C]"

section \<open>The hash table of entries\<close>

text \<open>
  \<open>zip_hash_string\<close>: the bucket of a name. \<open>hashBuckets\<close> is the number of chains.
\<close>

definition zip_hash_string :: "('z, 'k) zip_env \<Rightarrow> ZIPinfo \<Rightarrow> u8 list \<Rightarrow> nat" where
  "zip_hash_string E info s = unat (hashString E s) mod length (hash info)"

text \<open>
  \<open>zip_find_entry\<close>: the empty path is the root. Otherwise the chain of the path's
  bucket is walked to the first entry whose name compares equal, and that entry is moved
  to the front of its chain. The result is the address found or \<open>ERR_NOT_FOUND\<close>,
  with the archive after the move.
\<close>

definition zip_find_entry ::
  "('z, 'k) zip_env \<Rightarrow> ZIPinfo \<Rightarrow> u8 list \<Rightarrow> (PHYSFS_ErrorCode + nat) \<times> ZIPinfo" where
  "zip_find_entry E info path =
     (if path = [] then (Inr 0, info)
      else let hashval = zip_hash_string E info path;
               chain = hash info ! hashval
           in case List.find (\<lambda>a. utf8stricmp E (name (entries info ! a)) path = 0) chain of
                None \<Rightarrow> (Inl ERR_NOT_FOUND, info)
              | Some a \<Rightarrow>
                  (Inr a, info\<lparr>hash := (hash info)[hashval := a # remove1 a chain]\<rparr>))"

text \<open>\<open>strrchr\<close>: the index of the last occurrence of a byte in a string.\<close>

fun strrchr :: "u8 list \<Rightarrow> u8 \<Rightarrow> nat option" where
  "strrchr [] c = None"
| "strrchr (x # xs) c =
     (case strrchr xs c of
        Some i \<Rightarrow> Some (Suc i)
      | None \<Rightarrow> if x = c then Some 0 else None)"

lemma strrchr_less: "strrchr s c = Some i \<Longrightarrow> i < length s"
  by (induction s arbitrary: i) (auto split: option.splits if_splits)

text \<open>
  \<open>zip_hash_ancestors\<close> and \<open>zip_hash_entry\<close>. The parent directory of a name is looked
  up, and when it is missing a placeholder directory is allocated (at the next free
  address, all fields zero) and hashed in turn. \<open>zip_hash_entry\<close> then puts the entry at
  the front of its chain and of the children of its parent. The \<open>assert\<close> of
  \<open>zip_hash_entry\<close> is not part of the model.
\<close>

function zip_hash_ancestors ::
    "('z, 'k) zip_env \<Rightarrow> ZIPinfo \<Rightarrow> u8 list \<Rightarrow> PHYSFS_ErrorCode + (nat \<times> ZIPinfo)"
  and zip_hash_entry :: "('z, 'k) zip_env \<Rightarrow> ZIPinfo \<Rightarrow> nat \<Rightarrow> PHYSFS_ErrorCode + ZIPinfo" where
  "zip_hash_ancestors E info nm =
     (case strrchr nm CH_SLASH of
        None \<Rightarrow> Inr (0, info)
      | Some sep \<Rightarrow>
          (case zip_find_entry E info (take sep nm) of
             (Inr retval, info1) \<Rightarrow>
               if resolved (entries info1 ! retval) \<noteq> ZIP_DIRECTORY then Inl ERR_CORRUPT
               else Inr (retval, info1)
           | (Inl err, info1) \<Rightarrow>
               let retval = length (entries info1);
                   info2 = info1\<lparr>entries := entries info1 @
                             [zero_entry\<lparr>name := take sep nm, resolved := ZIP_DIRECTORY\<rparr>]\<rparr>
               in ebind (zip_hash_entry E info2 retval) (\<lambda>info3. Inr (retval, info3))))"
| "zip_hash_entry E info a =
     ebind (zip_hash_ancestors E info (name (entries info ! a))) (\<lambda>(parent, info1).
       let hashval = zip_hash_string E info1 (name (entries info1 ! a));
           info2 = info1\<lparr>hash := (hash info1)[hashval := a # (hash info1 ! hashval)]\<rparr>;
           ents = entries info2;
           ents1 = ents[a := (ents ! a)\<lparr>sibling := children (ents ! parent)\<rparr>];
           ents2 = ents1[parent := (ents1 ! parent)\<lparr>children := Some a\<rparr>]
       in Inr (info2\<lparr>entries := ents2\<rparr>))"
  by pat_completeness auto
termination
  apply (relation "measure (\<lambda>x. case x of
            Inl (E, info, nm) \<Rightarrow> 2 * length nm + 1
          | Inr (E, info, a) \<Rightarrow> 2 * length (name (entries info ! a)) + 2)")
    apply simp
   apply (auto dest!: strrchr_less)
  done

declare zip_hash_ancestors.simps [simp del] zip_hash_entry.simps [simp del]

text \<open>
  The loop of \<open>zip_load_entries\<close> over the records that remain. A record whose name is
  found is a duplicate when the entry found has a modification time, and otherwise
  updates the placeholder found; a record whose name is new is allocated and hashed.
\<close>

fun zip_load_entries_loop ::
  "('z, 'k) zip_env \<Rightarrow> u64 \<Rightarrow> nat \<Rightarrow> ZIPinfo \<Rightarrow> PHYSFS_ErrorCode + ZIPinfo" where
  "zip_load_entries_loop E data_ofs 0 info = Inr info"
| "zip_load_entries_loop E data_ofs (Suc n) info =
     ebind (zip_load_entry E (info_io info) (zip64 info) data_ofs) (\<lambda>(ent, io).
       case zip_find_entry E (info\<lparr>info_io := io\<rparr>) (name ent) of
         (Inr found, info1) \<Rightarrow>
           if last_mod_time (entries info1 ! found) \<noteq> 0 then Inl ERR_CORRUPT
           else zip_load_entries_loop E data_ofs n
                  (info1\<lparr>entries := (entries info1)[found := (entries info1 ! found)
                             \<lparr>offset := offset ent,
                              version := version ent,
                              version_needed := version_needed ent,
                              compression_method := compression_method ent,
                              crc := crc ent,
                              compressed_size := compressed_size ent,
                              uncompressed_size := uncompressed_size ent,
                              last_mod_time := last_mod_time ent\<rparr>]\<rparr>)
       | (Inl err, info1) \<Rightarrow>
           ebind (zip_hash_entry E (info1\<lparr>entries := entries info1 @ [ent]\<rparr>)
                    (length (entries info1))) (\<lambda>info2.
             zip_load_entries_loop E data_ofs n
               (if zip_entry_is_tradional_crypto ent then info2\<lparr>has_crypto := True\<rparr>
                else info2)))"

declare zip_load_entries_loop.simps [simp del]

definition zip_load_entries ::
  "('z, 'k) zip_env \<Rightarrow> ZIPinfo \<Rightarrow> u64 \<Rightarrow> u64 \<Rightarrow> u64 \<Rightarrow> PHYSFS_ErrorCode + ZIPinfo" where
  "zip_load_entries E info data_ofs central_ofs entry_count =
     ebind (io_seek (info_io info) (unat central_ofs)) (\<lambda>io.
       zip_load_entries_loop E data_ofs (unat entry_count) (info\<lparr>info_io := io\<rparr>))"

text \<open>
  \<open>zip_alloc_hashtable\<close>, and the archive as \<open>ZIP_openArchive\<close> sets it up before the
  central directory is read: a zeroed structure whose root is a directory.
\<close>

definition zip_alloc_hashtable :: "ZIPinfo \<Rightarrow> u64 \<Rightarrow> ZIPinfo" where
  "zip_alloc_hashtable info entry_count =
     (let hashBuckets = unat (entry_count div 5)
      in info\<lparr>hash := replicate (if hashBuckets = 0 then 1 else hashBuckets) []\<rparr>)"

definition new_ZIPinfo :: "PHYSFS_Io \<Rightarrow> ZIPinfo" where
  "new_ZIPinfo io = \<lparr>info_io = io, entries = [zero_entry\<lparr>resolved := ZIP_DIRECTORY\<rparr>],
     hash = [], zip64 = False, has_crypto = False\<rparr>"

text \<open>
  A central directory record of a regular file of 3 bytes with the given name, made on a
  unix host, and the archive state \<open>c7_info\<close> before a central directory made of the given
  records is loaded (one bucket, the byte source at the first record).
\<close>

definition c7_record :: "u8 list \<Rightarrow> u8 list" where
  "c7_record nm = [0x50, 0x4B, 0x01, 0x02, 0x1E, 0x03, 0x0A, 0, 0, 0, 0, 0, 0, 0, 0, 0,
     0x78, 0x56, 0x34, 0x12, 3, 0, 0, 0, 3, 0, 0, 0, of_nat (length nm), 0, 0, 0, 0, 0, 0, 0, 0, 0,
     0, 0, 0, 0, 0x40, 0, 0, 0] @ nm"

definition c7_info :: "u8 list \<Rightarrow> ZIPinfo" where
  "c7_info cdir = zip_alloc_hashtable (new_ZIPinfo \<lparr>io_data = cdir, io_pos = 0\<rparr>) 2"




definition c7_file :: "u8 list \<Rightarrow> ZIPentry" where
  "c7_file nm = zero_entry\<lparr>name := nm, offset := 64, version := 0x031E, version_needed := 10,
     crc := 0x12345678, compressed_size := 3, uncompressed_size := 3, last_mod_time := 1\<rparr>"


section \<open>Symbolic links and the resolution of entries\<close>



















section \<open>Opening an entry for reading\<close>







section \<open>Evaluation of concrete inputs\<close>

text \<open>
  Concrete inputs are evaluated by the simplifier, arguments first: the congruence rules
  below keep it out of the branches of a \<open>let\<close> or a \<open>case\<close> until the value is known.
\<close>

lemma Let_eval_cong: "a = b \<Longrightarrow> Let a f = Let b f"
  by simp

lemma ebind_eval_cong: "m = m' \<Longrightarrow> ebind m f = ebind m' f"
  by simp

lemma ebind_Inl [simp]: "ebind (Inl e) f = Inl e"
  by (simp add: ebind_def)

lemma ebind_Inr [simp]: "ebind (Inr v) f = f v"
  by (simp add: ebind_def)

lemmas eval_congs = Let_eval_cong ebind_eval_cong prod.case_cong_weak sum.case_cong_weak
  option.case_cong_weak list.case_cong_weak

lemma crc_bits_numeral:
  "crc_bits (numeral n) x =
     crc_bits (pred_numeral n)
       (if x AND 1 \<noteq> 0 then 0xEDB88320 XOR drop_bit 1 x else drop_bit 1 x)"
  by (simp add: numeral_eq_Suc)

lemmas crypto_eval = zip_crypto_crc32_def crc_bits_numeral Let_def

section \<open>The password verifier of the traditional cipher\<close>

lemma zip_decrypt_loop_length: "length (fst (zip_decrypt_loop keys bs)) = length bs"
  by (induction bs arbitrary: keys) (simp_all add: Let_def split_beta)

lemma zip_prep_header_eq:
  "zip_prep_header hs keys fb =
     (snd (zip_decrypt_loop keys hs),
      if hs = [] then fb else last (fst (zip_decrypt_loop keys hs)))"
proof (induction hs arbitrary: keys fb)
  case Nil
  then show ?case by simp
next
  case (Cons h hs)
  show ?case
  proof (cases hs)
    case Nil
    then show ?thesis by (simp add: Let_def)
  next
    case (Cons a list)
    then show ?thesis using Cons.IH
      by (simp add: Let_def split: prod.splits)
  qed
qed

lemma bit3_u16: "((w :: u16) AND push_bit 3 1 \<noteq> 0) = bit w 3"
  by (simp add: bit_iff_and_push_bit_not_eq_0)

lemma ignore_local_header_bit: "zip_entry_ignore_local_header e = bit (general_bits e) 3"
  unfolding zip_entry_ignore_local_header_def by (rule bit3_u16)

lemma ucast_and_FF: "(ucast ((w :: u32) AND 0xFF) :: u8) = ucast w"
proof -
  have m: "(0xFF :: u32) = mask 8" by (simp add: mask_eq_exp_minus_1)
  show ?thesis unfolding m by (rule bit_word_eqI) (auto simp: bit_simps)
qed

text \<open>
  C2 (as amended). The keys are initialised with the three constants and updated with the
  password; the 12 header bytes are then decrypted with the loop of the read path. The
  call succeeds, saving the keys reached as current and initial keys, exactly when the
  12th decrypted byte equals the verifier: bits 24..31 of the CRC-32 when bit 3 of
  \<open>general_bits\<close> is clear, and bits 8..15 of \<open>dos_mod_time\<close> (the high byte of its
  16-bit time half) when bit 3 is set. Otherwise it fails with \<open>ERR_BAD_PASSWORD\<close>.
\<close>

theorem C2_password_verifier:
  assumes "length crypto_header = 12"
  shows "zip_prep_crypto_keys finfo crypto_header password =
     (case zip_decrypt_loop
             (zip_password_loop (305419896, 591751049, 878082192) password)
             crypto_header of
        (plain, keys) \<Rightarrow>
          if plain ! 11 = (if bit (general_bits (entry finfo)) 3
                           then ucast (drop_bit 8 (dos_mod_time (entry finfo)))
                           else ucast (drop_bit 24 (crc (entry finfo))))
          then Inr (finfo\<lparr>crypto_keys := keys, initial_crypto_keys := keys\<rparr>)
          else Inl ERR_BAD_PASSWORD)"
proof -
  let ?k = "zip_password_loop (305419896, 591751049, 878082192) password"
  obtain plain keys where dl: "zip_decrypt_loop ?k crypto_header = (plain, keys)"
    by (cases "zip_decrypt_loop ?k crypto_header")
  have len: "length plain = 12"
    using zip_decrypt_loop_length [of ?k crypto_header] dl assms by simp
  then have ne: "plain \<noteq> []" by auto
  have lst: "last plain = plain ! 11"
    using len ne by (simp add: last_conv_nth)
  have hdr: "zip_prep_header crypto_header ?k 0 = (keys, plain ! 11)"
    using zip_prep_header_eq [of crypto_header ?k 0] dl assms lst
    by auto
  show ?thesis
    unfolding zip_prep_crypto_keys_def
    using hdr dl assms
    by (simp add: Let_def ignore_local_header_bit ucast_and_FF)
qed

lemma decrypt_pw_zero_header:
  "zip_decrypt_loop (zip_password_loop (305419896, 591751049, 878082192) [0x70, 0x77])
      [0, 0, 0, 0, 0, 0, 0, 0, 0, 0, 0, 0]
   = ([227, 224, 5, 138, 34, 163, 85, 194, 160, 68, 7, 218],
      2689716270, 498577092, 1146863080)"
  by (simp add: crypto_eval cong: eval_congs)

text \<open>
  Witness for C2: password \<open>pw\<close> and a header of 12 zero bytes, whose 12th decrypted
  byte is 218, open an entry whose CRC-32 starts with that byte.
\<close>

theorem C2_password_verifier_witness:
  "length [0, 0, 0, 0, 0, 0, 0, 0, 0, 0, 0, 0 :: u8] = 12 \<and>
   zip_prep_crypto_keys
      ((zero_finfo :: (unit, unit) ZIPfileinfo)
         \<lparr>entry := zero_entry\<lparr>general_bits := 1, crc := 0xDA000000\<rparr>\<rparr>)
      [0, 0, 0, 0, 0, 0, 0, 0, 0, 0, 0, 0] [0x70, 0x77] =
   Inr ((zero_finfo :: (unit, unit) ZIPfileinfo)
         \<lparr>entry := zero_entry\<lparr>general_bits := 1, crc := 0xDA000000\<rparr>,
          crypto_keys := (2689716270, 498577092, 1146863080),
          initial_crypto_keys := (2689716270, 498577092, 1146863080)\<rparr>)"
proof -
  have l: "length [0, 0, 0, 0, 0, 0, 0, 0, 0, 0, 0, 0 :: u8] = 12" by simp
  have b: "\<not> bit (1 :: u16) 3" by simp
  have c: "(ucast (drop_bit 24 (0xDA000000 :: u32)) :: u8) = 218" by simp
  show ?thesis
    using C2_password_verifier [OF l,
        of "(zero_finfo :: (unit, unit) ZIPfileinfo)
              \<lparr>entry := zero_entry\<lparr>general_bits := 1, crc := 0xDA000000\<rparr>\<rparr>"
           "[0x70, 0x77]"]
    unfolding decrypt_pw_zero_header by (simp add: b c)
qed

text \<open>
  Counterexample to C2 as stated. Bit 3 of \<open>general_bits\<close> is set and \<open>dos_mod_time\<close> is
  \<open>0x0000DA00\<close>: its high byte is 0, the 12th decrypted byte is 218, and the call does
  not fail.
\<close>

theorem C2_counterexample:
  "bit (general_bits (zero_entry\<lparr>general_bits := 9, dos_mod_time := 0xDA00\<rparr>)) 3
   \<and> fst (zip_decrypt_loop
            (zip_password_loop (305419896, 591751049, 878082192) [0x70, 0x77])
            [0, 0, 0, 0, 0, 0, 0, 0, 0, 0, 0, 0]) ! 11
       \<noteq> ucast (drop_bit 24
                  (dos_mod_time (zero_entry\<lparr>general_bits := 9, dos_mod_time := 0xDA00\<rparr>)))
   \<and> zip_prep_crypto_keys
         ((zero_finfo :: (unit, unit) ZIPfileinfo)
            \<lparr>entry := zero_entry\<lparr>general_bits := 9, dos_mod_time := 0xDA00\<rparr>\<rparr>)
         [0, 0, 0, 0, 0, 0, 0, 0, 0, 0, 0, 0] [0x70, 0x77] \<noteq> Inl ERR_BAD_PASSWORD"
proof -
  have h: "zip_prep_header [0, 0, 0, 0, 0, 0, 0, 0, 0, 0, 0, 0]
             (zip_password_loop (305419896, 591751049, 878082192) [0x70, 0x77]) 0
           = ((2689716270, 498577092, 1146863080), 218)"
    unfolding zip_prep_header_eq decrypt_pw_zero_header by simp
  have v: "(ucast (drop_bit 8 (0xDA00 :: u32) AND 0xFF) :: u8) = 218" by simp
  have w: "(ucast (drop_bit 24 (0xDA00 :: u32)) :: u8) = 0" by simp
  have b: "(9 :: u16) AND push_bit 3 1 \<noteq> 0" by simp
  have t: "take 12 [0, 0, 0, 0, 0, 0, 0, 0, 0, 0, 0, 0 :: u8] = [0, 0, 0, 0, 0, 0, 0, 0, 0, 0, 0, 0]"
    by simp
  have p: "zip_prep_crypto_keys
         ((zero_finfo :: (unit, unit) ZIPfileinfo)
            \<lparr>entry := zero_entry\<lparr>general_bits := 9, dos_mod_time := 0xDA00\<rparr>\<rparr>)
         [0, 0, 0, 0, 0, 0, 0, 0, 0, 0, 0, 0] [0x70, 0x77] \<noteq> Inl ERR_BAD_PASSWORD"
    unfolding zip_prep_crypto_keys_def Let_def t h zip_entry_ignore_local_header_def
    by (simp add: v b del: zip_password_loop.simps)
  show ?thesis
    unfolding decrypt_pw_zero_header using p by (simp add: w)
qed

section \<open>Reads and seeks of entries that are not AES\<close>

lemma bind_eval_cong: "m = m' \<Longrightarrow> Option.bind m f = Option.bind m' f"
  by simp

lemma not_aes_128: "key_strength (aes_data e) = ZIP_AES_128_BITS \<Longrightarrow> \<not> ZIP_IS_AES e"
  by (simp add: ZIP_IS_AES_def)

lemma zip_read_decrypt_not_aes:
  assumes "\<not> ZIP_IS_AES (entry finfo)"
  shows "zip_read_decrypt E finfo len =
        (case io_read (finfo_io finfo) len of
           (bs, io') \<Rightarrow>
             if zip_entry_is_tradional_crypto (entry finfo) \<and> length bs > 0
             then zip_decrypt_traditional (finfo\<lparr>finfo_io := io'\<rparr>) bs
             else (Inr bs, finfo\<lparr>finfo_io := io'\<rparr>))"
  using assms by (cases "io_read (finfo_io finfo) len") (simp add: zip_read_decrypt_def Let_def)

lemma zip_read_decrypt_keeps:
  assumes "\<not> ZIP_IS_AES (entry finfo)" "zip_read_decrypt E finfo len = (r, finfo')"
  shows "entry finfo' = entry finfo \<and> aes_ctx finfo' = aes_ctx finfo"
  using assms
  by (auto simp: zip_read_decrypt_not_aes zip_decrypt_traditional_def split: prod.splits if_splits)

lemma ZIP_read_refill_keeps:
  assumes "\<not> ZIP_IS_AES (entry finfo)" "ZIP_read_refill E finfo = (r, finfo')"
  shows "entry finfo' = entry finfo \<and> aes_ctx finfo' = aes_ctx finfo"
  using assms zip_read_decrypt_keeps [OF assms(1)]
  by (auto simp: ZIP_read_refill_def Let_def split: prod.splits if_splits sum.splits)

lemma ZIP_read_loop_keeps_aux:
  assumes "ZIP_read_loop E maxread retval out finfo = Some y"
  shows "\<not> ZIP_IS_AES (entry finfo) \<longrightarrow>
           entry (snd (snd (snd y))) = entry finfo \<and> aes_ctx (snd (snd (snd y))) = aes_ctx finfo"
  using assms
proof (induction rule: ZIP_read_loop.raw_induct [rotated 1, consumes 1])
  case (1 loop E maxread retval out finfo y)
  show ?case
  proof
    assume na: "\<not> ZIP_IS_AES (entry finfo)"
    show "entry (snd (snd (snd y))) = entry finfo \<and> aes_ctx (snd (snd (snd y))) = aes_ctx finfo"
    proof (cases "retval < maxread")
      case False
      with 1(2) show ?thesis by auto
    next
      case True
      obtain rr f1 where rf: "ZIP_read_refill E finfo = (rr, f1)" by (cases "ZIP_read_refill E finfo")
      have k1: "entry f1 = entry finfo \<and> aes_ctx f1 = aes_ctx finfo"
        using ZIP_read_refill_keeps [OF na rf] .
      show ?thesis
      proof (cases rr)
        case (Inl a)
        with 1(2) True rf k1 show ?thesis by auto
      next
        case (Inr b)
        obtain rc produced str where ic: "inflate_call E (stream f1) = (rc, produced, str)"
          by (cases "inflate_call E (stream f1)")
        show ?thesis
        proof (cases "rc = Z_OK")
          case True
          with 1(2) \<open>retval < maxread\<close> rf Inr ic
          have "loop E maxread (retval + int (length produced)) (out @ produced) (f1\<lparr>stream := str\<rparr>) = Some y"
            by (simp add: Let_def)
          from 1(1) [OF this] k1 na show ?thesis by simp
        next
          case False
          with 1(2) \<open>retval < maxread\<close> rf Inr ic k1 show ?thesis by (auto simp: Let_def)
        qed
      qed
    qed
  qed
qed

lemma ZIP_read_loop_keeps:
  assumes "ZIP_read_loop E maxread retval out finfo = Some (r, err, out', finfo')"
  shows "\<not> ZIP_IS_AES (entry finfo) \<longrightarrow> entry finfo' = entry finfo \<and> aes_ctx finfo' = aes_ctx finfo"
  using ZIP_read_loop_keeps_aux [OF assms] by simp

lemma ZIP_read_keeps:
  assumes "\<not> ZIP_IS_AES (entry finfo)" "ZIP_read E finfo len = Some (r, err, out, finfo')"
  shows "entry finfo' = entry finfo \<and> aes_ctx finfo' = aes_ctx finfo"
proof -
  let ?avail = "sint (uncompressed_size (entry finfo) - ucast (uncompressed_position finfo))"
  let ?maxread = "if ?avail < sint len then ?avail else sint len"
  show ?thesis
  proof (cases "?maxread = 0")
    case True
    with assms(2) show ?thesis by (simp add: ZIP_read_def Let_def)
  next
    case nz: False
    show ?thesis
    proof (cases "compression_method (entry finfo) = COMPMETH_NONE")
      case True
      obtain rr f1 where rd: "zip_read_decrypt E finfo (unat (word_of_int ?maxread :: u64)) = (rr, f1)"
        by (cases "zip_read_decrypt E finfo (unat (word_of_int ?maxread :: u64))")
      from zip_read_decrypt_keeps [OF assms(1) rd] assms(2) nz True rd show ?thesis
        by (auto simp: ZIP_read_def Let_def ZIP_read_finish_def split: sum.splits if_splits)
    next
      case False
      let ?f0 = "finfo\<lparr>stream := (stream finfo)\<lparr>avail_out := word_of_int ?maxread\<rparr>\<rparr>"
      from assms(2) nz False obtain r0 e0 o0 f0 where
        lp: "ZIP_read_loop E ?maxread 0 [] ?f0 = Some (r0, e0, o0, f0)"
        and fin: "ZIP_read_finish (r0, e0, o0, f0) = (r, err, out, finfo')"
        by (auto simp: ZIP_read_def Let_def)
      from ZIP_read_loop_keeps [OF lp] assms(1)
      have "entry f0 = entry finfo \<and> aes_ctx f0 = aes_ctx finfo" by simp
      with fin show ?thesis by (auto simp: ZIP_read_finish_def split: if_splits)
    qed
  qed
qed

lemma ZIP_seek_loop_keeps_aux:
  assumes "ZIP_seek_loop E ofs finfo = Some y"
  shows "\<not> ZIP_IS_AES (entry finfo) \<longrightarrow> entry (snd y) = entry finfo \<and> aes_ctx (snd y) = aes_ctx finfo"
  using assms
proof (induction rule: ZIP_seek_loop.raw_induct [rotated 1, consumes 1])
  case (1 loop E ofs finfo y)
  show ?case
  proof
    assume na: "\<not> ZIP_IS_AES (entry finfo)"
    show "entry (snd y) = entry finfo \<and> aes_ctx (snd y) = aes_ctx finfo"
    proof (cases "(ucast (uncompressed_position finfo) :: u64) \<noteq> ofs")
      case False
      with 1(2) show ?thesis by auto
    next
      case True
      let ?m = "(ucast (ofs - ucast (uncompressed_position finfo)) :: u32)"
      let ?maxread = "if ?m > 512 then 512 else ?m"
      from 1(2) True obtain retval err out f1 where
        rd: "ZIP_read E finfo (ucast ?maxread) = Some (retval, err, out, f1)"
        and rest: "(if retval \<noteq> uint ?maxread
                 then Some (Inl (case err of Some c \<Rightarrow> c | None \<Rightarrow> ERR_IO), f1)
                 else loop E ofs f1) = Some y"
        by (auto simp: Let_def Option.bind_eq_Some_conv)
      have k1: "entry f1 = entry finfo \<and> aes_ctx f1 = aes_ctx finfo"
        using ZIP_read_keeps [OF na rd] .
      show ?thesis
      proof (cases "retval \<noteq> uint ?maxread")
        case True
        with rest k1 show ?thesis by auto
      next
        case False
        with rest have "loop E ofs f1 = Some y" by simp
        from 1(1) [OF this] k1 na show ?thesis by simp
      qed
    qed
  qed
qed

lemma ZIP_seek_loop_keeps:
  assumes "ZIP_seek_loop E ofs finfo = Some (r, finfo')"
  shows "\<not> ZIP_IS_AES (entry finfo) \<longrightarrow> entry finfo' = entry finfo \<and> aes_ctx finfo' = aes_ctx finfo"
  using ZIP_seek_loop_keeps_aux [OF assms] by simp

lemma ZIP_seek_rewind_keeps:
  assumes "ZIP_seek_rewind E finfo = Inr finfo'"
  shows "entry finfo' = entry finfo \<and> aes_ctx finfo' = aes_ctx finfo"
  using assms
  by (auto simp: ZIP_seek_rewind_def Let_def split: prod.splits if_splits sum.splits)

lemma ZIP_seek_not_aes:
  assumes "\<not> ZIP_IS_AES (entry finfo)"
  shows "ZIP_seek E finfo ofs =
        (if ofs > uncompressed_size (entry finfo) then Some (Inl ERR_PAST_EOF, finfo)
         else if \<not> zip_entry_is_tradional_crypto (entry finfo)
                 \<and> compression_method (entry finfo) = COMPMETH_NONE
         then Some (ZIP_seek_plain finfo ofs)
         else ZIP_seek_decode E finfo ofs)"
  using assms by (simp add: ZIP_seek_def Let_def)

lemma ZIP_seek_keeps:
  assumes "\<not> ZIP_IS_AES (entry finfo)" "ZIP_seek E finfo ofs = Some (r, finfo')"
  shows "entry finfo' = entry finfo \<and> aes_ctx finfo' = aes_ctx finfo"
proof -
  have pl: "ZIP_seek_plain finfo ofs = (r, finfo') \<Longrightarrow> ?thesis"
    by (auto simp: ZIP_seek_plain_def Let_def split: sum.splits)
  have dc: "ZIP_seek_decode E finfo ofs = Some (r, finfo') \<Longrightarrow> ?thesis"
    using ZIP_seek_loop_keeps [of E ofs finfo r finfo'] ZIP_seek_rewind_keeps [of E finfo] assms(1)
      ZIP_seek_loop_keeps [of E ofs _ r finfo']
    by (auto simp: ZIP_seek_decode_def split: if_splits sum.splits)
  from assms(2) show ?thesis
    unfolding ZIP_seek_not_aes [OF assms(1)] using pl dc
    by (auto split: if_splits)
qed

text \<open>
  C5 (as amended). An entry whose recorded AES key strength is 128 bits
  (\<open>ZIP_AES_128_BITS\<close>) is not AES for \<open>ZIP_IS_AES\<close>. A read of it decrypts with the
  traditional cipher when bit 0 of \<open>general_bits\<close> is set and gives the bytes as read
  otherwise, and no read changes the AES context; a seek takes the branch of the stored,
  unencrypted entries or the decoding branch, never the AES branch, and leaves the AES
  context as it was. The entries that are AES are those whose key strength byte is
  neither 0 nor \<open>ZIP_AES_128_BITS\<close>: the entries of 192 and 256 bits, and every entry
  with a byte from 4 to 255, which \<open>zip_load_entry\<close> stores as it reads it. A read of
  such an entry with bit 0 of \<open>general_bits\<close> set decrypts with AES.
\<close>

theorem C5_aes_128_excluded:
  assumes "key_strength (aes_data (entry finfo)) = ZIP_AES_128_BITS"
  shows "\<not> ZIP_IS_AES (entry finfo)
    \<and> zip_read_decrypt E finfo len =
        (case io_read (finfo_io finfo) len of
           (bs, io') \<Rightarrow>
             if zip_entry_is_tradional_crypto (entry finfo) \<and> length bs > 0
             then zip_decrypt_traditional (finfo\<lparr>finfo_io := io'\<rparr>) bs
             else (Inr bs, finfo\<lparr>finfo_io := io'\<rparr>))
    \<and> (\<forall>r err out finfo'. ZIP_read E finfo n = Some (r, err, out, finfo')
           \<longrightarrow> aes_ctx finfo' = aes_ctx finfo)
    \<and> ZIP_seek E finfo ofs =
        (if ofs > uncompressed_size (entry finfo) then Some (Inl ERR_PAST_EOF, finfo)
         else if \<not> zip_entry_is_tradional_crypto (entry finfo)
                 \<and> compression_method (entry finfo) = COMPMETH_NONE
         then Some (ZIP_seek_plain finfo ofs)
         else ZIP_seek_decode E finfo ofs)
    \<and> (\<forall>r finfo'. ZIP_seek E finfo ofs = Some (r, finfo')
           \<longrightarrow> aes_ctx finfo' = aes_ctx finfo)
    \<and> (ZIP_IS_AES e \<longleftrightarrow>
          key_strength (aes_data e) \<noteq> 0 \<and> key_strength (aes_data e) \<noteq> ZIP_AES_128_BITS)
    \<and> (ZIP_IS_AES (entry f) \<and> zip_entry_is_tradional_crypto (entry f) \<longrightarrow>
          zip_read_decrypt E f len =
            (case io_read (finfo_io f) len of
               (bs, io') \<Rightarrow>
                 if length bs > 0 then zip_decrypt_aes E (f\<lparr>finfo_io := io'\<rparr>) bs
                 else (Inr bs, f\<lparr>finfo_io := io'\<rparr>)))"
proof -
  have na: "\<not> ZIP_IS_AES (entry finfo)" using assms by (rule not_aes_128)
  have e: "ZIP_IS_AES e \<longleftrightarrow>
          key_strength (aes_data e) \<noteq> 0 \<and> key_strength (aes_data e) \<noteq> ZIP_AES_128_BITS"
    unfolding ZIP_IS_AES_def ZIP_AES_128_BITS_def
    by (simp add: word_less_iff_unsigned [where ?'a = nat] word_unat_eq_iff) arith
  have a: "ZIP_IS_AES (entry f) \<and> zip_entry_is_tradional_crypto (entry f) \<longrightarrow>
          zip_read_decrypt E f len =
            (case io_read (finfo_io f) len of
               (bs, io') \<Rightarrow>
                 if length bs > 0 then zip_decrypt_aes E (f\<lparr>finfo_io := io'\<rparr>) bs
                 else (Inr bs, f\<lparr>finfo_io := io'\<rparr>))"
    by (cases "io_read (finfo_io f) len") (simp add: zip_read_decrypt_def Let_def)
  show ?thesis
    using na zip_read_decrypt_not_aes [OF na, of E len] ZIP_read_keeps [OF na, of E n]
      ZIP_seek_not_aes [OF na, of E ofs] ZIP_seek_keeps [OF na, of E ofs] e a
    by blast
qed

text \<open>Witness for C5: the file \<open>c5_file\<close>, and the same file recorded with 256 bits.\<close>

theorem C5_aes_128_excluded_witness:
  "key_strength (aes_data (entry c5_file)) = ZIP_AES_128_BITS
   \<and> \<not> ZIP_IS_AES (entry c5_file)
   \<and> zip_read_decrypt test_env c5_file 2 =
       zip_decrypt_traditional (c5_file\<lparr>finfo_io := \<lparr>io_data = [0x11, 0x22], io_pos = 2\<rparr>\<rparr>)
         [0x11, 0x22]
   \<and> ZIP_seek test_env c5_file 1 = ZIP_seek_decode test_env c5_file 1
   \<and> ZIP_IS_AES (entry (c5_file_strength 3))
   \<and> zip_entry_is_tradional_crypto (entry (c5_file_strength 3))
   \<and> zip_read_decrypt test_env (c5_file_strength 3) 2 =
       zip_decrypt_aes test_env
         (c5_file_strength 3\<lparr>finfo_io := \<lparr>io_data = [0x11, 0x22], io_pos = 2\<rparr>\<rparr>) [0x11, 0x22]"
proof -
  have k: "key_strength (aes_data (entry c5_file)) = ZIP_AES_128_BITS"
    by (simp add: c5_file_def ZIP_AES_128_BITS_def zero_finfo_def)
  have r: "io_read (finfo_io c5_file) 2 = ([0x11, 0x22], \<lparr>io_data = [0x11, 0x22], io_pos = 2\<rparr>)"
    by (simp add: c5_file_def io_read_def zero_finfo_def Let_def numeral_2_eq_2)
  have r3: "io_read (finfo_io (c5_file_strength 3)) 2 =
      ([0x11, 0x22], \<lparr>io_data = [0x11, 0x22], io_pos = 2\<rparr>)"
    by (simp add: c5_file_strength_def c5_file_def io_read_def zero_finfo_def Let_def
          numeral_2_eq_2)
  have c: "zip_entry_is_tradional_crypto (entry c5_file)"
    by (simp add: c5_file_def zip_entry_is_tradional_crypto_def zero_finfo_def)
  have c3: "zip_entry_is_tradional_crypto (entry (c5_file_strength 3))"
    by (simp add: c5_file_strength_def c5_file_def zip_entry_is_tradional_crypto_def
          zero_finfo_def)
  have s: "\<not> (1 :: u64) > uncompressed_size (entry c5_file)"
    by (simp add: c5_file_def zero_finfo_def)
  have a: "key_strength (aes_data (entry (c5_file_strength 3))) \<noteq> 0"
      "key_strength (aes_data (entry (c5_file_strength 3))) \<noteq> ZIP_AES_128_BITS"
    by (simp_all add: c5_file_strength_def ZIP_AES_128_BITS_def)
  show ?thesis
    using C5_aes_128_excluded [OF k, of test_env 2 2 1 "entry (c5_file_strength 3)"
        "c5_file_strength 3"]
    unfolding r r3 using k c c3 s a by simp
qed

text \<open>
  Counterexample to C5 as stated: a key strength byte of 4 is neither 192 nor 256 bits.
  The AES extra field with that byte is accepted and stored, the entry is AES for
  \<open>ZIP_IS_AES\<close>, and a read of it decrypts with AES.
\<close>

theorem C5_counterexample:
  "key_strength (aes_data (entry (c5_file_strength 4))) \<noteq> ZIP_AES_192_BITS
   \<and> key_strength (aes_data (entry (c5_file_strength 4))) \<noteq> ZIP_AES_256_BITS
   \<and> aes_extra \<lparr>io_data = [2, 0, 0x41, 0x45, 4, 0, 0], io_pos = 0\<rparr>
         (zero_entry\<lparr>general_bits := 1, uncompressed_size := 2, compression_method := COMPMETH_AES\<rparr>)
       = Inr (\<lparr>io_data = [2, 0, 0x41, 0x45, 4, 0, 0], io_pos = 7\<rparr>,
              (entry (c5_file_strength 4)))
   \<and> ZIP_IS_AES (entry (c5_file_strength 4))
   \<and> zip_read_decrypt test_env (c5_file_strength 4) 2 =
       zip_decrypt_aes test_env
         (c5_file_strength 4\<lparr>finfo_io := \<lparr>io_data = [0x11, 0x22], io_pos = 2\<rparr>\<rparr>) [0x11, 0x22]"
proof -
  have k: "key_strength (aes_data (entry (c5_file_strength 4))) \<noteq> ZIP_AES_192_BITS
      \<and> key_strength (aes_data (entry (c5_file_strength 4))) \<noteq> ZIP_AES_256_BITS"
    by (simp add: c5_file_strength_def ZIP_AES_192_BITS_def ZIP_AES_256_BITS_def)
  have a: "ZIP_IS_AES (entry (c5_file_strength 4))"
    by (simp add: c5_file_strength_def ZIP_IS_AES_def ZIP_AES_128_BITS_def)
  have r: "io_read (finfo_io (c5_file_strength 4)) 2 =
      ([0x11, 0x22], \<lparr>io_data = [0x11, 0x22], io_pos = 2\<rparr>)"
    by (simp add: c5_file_strength_def c5_file_def io_read_def zero_finfo_def Let_def
          numeral_2_eq_2)
  have c: "zip_entry_is_tradional_crypto (entry (c5_file_strength 4))"
    by (simp add: c5_file_strength_def c5_file_def zip_entry_is_tradional_crypto_def
          zero_finfo_def)
  have d: "zip_read_decrypt test_env (c5_file_strength 4) 2 =
       zip_decrypt_aes test_env
         (c5_file_strength 4\<lparr>finfo_io := \<lparr>io_data = [0x11, 0x22], io_pos = 2\<rparr>\<rparr>) [0x11, 0x22]"
    unfolding zip_read_decrypt_def r using c a by (simp add: Let_def)
  have x: "aes_extra \<lparr>io_data = [2, 0, 0x41, 0x45, 4, 0, 0], io_pos = 0\<rparr>
         (zero_entry\<lparr>general_bits := 1, uncompressed_size := 2, compression_method := COMPMETH_AES\<rparr>)
       = Inr (\<lparr>io_data = [2, 0, 0x41, 0x45, 4, 0, 0], io_pos = 7\<rparr>,
              (entry (c5_file_strength 4)))"
    by (simp add: c5_file_strength_def c5_file_def zero_finfo_def zero_entry_def zero_aes_def
          aes_extra_def or_corrupt_def io_seek_def io_read_def readAll_def readui8_def
          readui16_def Let_def ZIP_AE1_VENDOR_VERSION_def ZIP_AE2_VENDOR_VERSION_def
          ZIP_AES_VENDOR_ID_def COMPMETH_AES_def COMPMETH_NONE_def cong: eval_congs)
  from k a d x show ?thesis by blast
qed

section \<open>Seeks to the end of an entry and beyond 4 GiB\<close>

lemma ZIP_read_at_end:
  assumes "(ucast (uncompressed_position finfo) :: u64) = uncompressed_size (entry finfo)"
    and "0 \<le> sint len"
  shows "ZIP_read E finfo len = Some (0, None, [], finfo)"
  using assms by (simp add: ZIP_read_def Let_def)

lemma ZIP_seek_loop_post_aux:
  assumes "ZIP_seek_loop E ofs finfo = Some y"
  shows "fst y = Inr () \<longrightarrow> (ucast (uncompressed_position (snd y)) :: u64) = ofs"
  using assms
proof (induction rule: ZIP_seek_loop.raw_induct [rotated 1, consumes 1])
  case (1 loop E ofs finfo y)
  show ?case
  proof (cases "(ucast (uncompressed_position finfo) :: u64) \<noteq> ofs")
    case False
    with 1(2) show ?thesis by auto
  next
    case True
    let ?m = "(ucast (ofs - ucast (uncompressed_position finfo)) :: u32)"
    let ?maxread = "if ?m > 512 then 512 else ?m"
    from 1(2) True obtain retval err out f1 where
      rd: "ZIP_read E finfo (ucast ?maxread) = Some (retval, err, out, f1)"
      and rest: "(if retval \<noteq> uint ?maxread
               then Some (Inl (case err of Some c \<Rightarrow> c | None \<Rightarrow> ERR_IO), f1)
               else loop E ofs f1) = Some y"
      by (auto simp: Let_def Option.bind_eq_Some_conv)
    show ?thesis
    proof (cases "retval \<noteq> uint ?maxread")
      case True
      with rest show ?thesis by auto
    next
      case False
      with rest have "loop E ofs f1 = Some y" by simp
      from 1(1) [OF this] show ?thesis .
    qed
  qed
qed

lemma ZIP_seek_loop_post:
  assumes "ZIP_seek_loop E ofs finfo = Some (Inr (), finfo')"
  shows "(ucast (uncompressed_position finfo') :: u64) = ofs"
  using ZIP_seek_loop_post_aux [OF assms] by simp

lemma uint_ucast_u32_u64: "uint (ucast (w :: u32) :: u64) = uint w"
proof -
  have "uint w < 2 ^ 32" using uint_lt2p [of w] by simp
  then have "uint w < 2 ^ 64" by simp
  then show ?thesis by (simp add: unsigned_ucast_eq take_bit_int_eq_self)
qed

lemma ucast_u32_u64_less: "(ucast (w :: u32) :: u64) < 0x100000000"
proof -
  have "uint w < 2 ^ 32" using uint_lt2p [of w] by simp
  then show ?thesis
    by (simp add: word_less_iff_unsigned [where ?'a = int] uint_ucast_u32_u64)
qed

lemma ucast_down_up_u64: "(w :: u64) < 0x100000000 \<Longrightarrow> (ucast (ucast w :: u32) :: u64) = w"
proof -
  assume a: "w < 0x100000000"
  then have u: "uint w < 2 ^ 32" by (simp add: word_less_iff_unsigned [where ?'a = int])
  have "uint (ucast (ucast w :: u32) :: u64) = uint w"
    using u by (simp add: uint_ucast_u32_u64 unsigned_ucast_eq unsigned_take_bit_eq take_bit_int_eq_self)
  then show ?thesis by (simp add: word_uint_eq_iff)
qed

lemma sint_pos_u64: "(w :: u64) \<ge> 0x100000000 \<Longrightarrow> w < 0x8000000000000000 \<Longrightarrow> sint w = uint w \<and> 0 < sint w"
proof -
  assume a: "w \<ge> 0x100000000" and b: "w < 0x8000000000000000"
  from a have l: "2 ^ 32 \<le> uint w" by (simp add: word_less_eq_iff_unsigned [where ?'a = int])
  from b have h: "uint w < 2 ^ 63" by (simp add: word_less_iff_unsigned [where ?'a = int])
  have "sint w = uint w" using l h by (simp add: sint_uint signed_take_bit_int_eq_self)
  with l show ?thesis by simp
qed

lemma sint_small_u64: "(w :: u64) < 0x8000000000000000 \<Longrightarrow> sint w = uint w"
proof -
  assume b: "w < 0x8000000000000000"
  from b have h: "uint w < 2 ^ 63" by (simp add: word_less_iff_unsigned [where ?'a = int])
  have "- (2 ^ 63) \<le> uint w"
    by (rule order_trans [of _ 0]) simp_all
  then have "signed_take_bit 63 (uint w) = uint w"
    using h by (rule signed_take_bit_int_eq_self)
  then show "sint w = uint w" by (simp add: sint_uint)
qed

lemma ZIP_seek_success_position:
  assumes "ZIP_seek E finfo ofs = Some (Inr (), finfo')" "ofs < 0x100000000"
  shows "(ucast (uncompressed_position finfo') :: u64) = ofs \<and> entry finfo' = entry finfo"
proof -
  let ?e = "entry finfo"
  from assms(1) have le: "\<not> ofs > uncompressed_size ?e"
    by (auto simp: ZIP_seek_def Let_def split: if_splits)
  show ?thesis
  proof (cases "\<not> zip_entry_is_tradional_crypto ?e \<and> compression_method ?e = COMPMETH_NONE")
    case True
    with assms(1) le have "ZIP_seek_plain finfo ofs = (Inr (), finfo')"
      by (simp add: ZIP_seek_def Let_def)
    then show ?thesis using ucast_down_up_u64 [OF assms(2)]
      by (auto simp: ZIP_seek_plain_def Let_def split: sum.splits)
  next
    case nplain: False
    show ?thesis
    proof (cases "ZIP_IS_AES ?e")
      case True
      with assms(1) le nplain have "ZIP_seek_aes finfo ofs = (Inr (), finfo')"
        by (simp add: ZIP_seek_def Let_def)
      then show ?thesis using ucast_down_up_u64 [OF assms(2)]
        by (auto simp: ZIP_seek_aes_def Let_def split: sum.splits)
    next
      case False
      with assms(1) le nplain have dc: "ZIP_seek_decode E finfo ofs = Some (Inr (), finfo')"
        by (simp add: ZIP_seek_def Let_def)
      have k: "entry finfo' = entry finfo \<and> aes_ctx finfo' = aes_ctx finfo"
        using ZIP_seek_keeps [OF False assms(1)] .
      from dc obtain f0 where "ZIP_seek_loop E ofs f0 = Some (Inr (), finfo')"
        by (auto simp: ZIP_seek_decode_def split: if_splits sum.splits)
      from ZIP_seek_loop_post [OF this] k show ?thesis by simp
    qed
  qed
qed

lemma ZIP_seek_past_eof:
  assumes "ofs > uncompressed_size (entry finfo)"
  shows "ZIP_seek E finfo ofs = Some (Inl ERR_PAST_EOF, finfo)"
  using assms by (simp add: ZIP_seek_def Let_def)

lemma ZIP_seek_end_then_read:
  assumes "uncompressed_size (entry finfo) < 0x100000000"
    and "ZIP_seek E finfo (uncompressed_size (entry finfo)) = Some (Inr (), finfo')"
    and "0 \<le> sint len"
  shows "ZIP_read E finfo' len = Some (0, None, [], finfo')"
proof -
  from ZIP_seek_success_position [OF assms(2) assms(1)]
  have "(ucast (uncompressed_position finfo') :: u64) = uncompressed_size (entry finfo')" by simp
  from ZIP_read_at_end [OF this assms(3)] show ?thesis .
qed

lemma ZIP_seek_loop_4GiB_aux:
  assumes "ZIP_seek_loop E ofs finfo = Some y"
  shows "ofs \<ge> 0x100000000 \<longrightarrow> fst y \<noteq> Inr ()"
proof
  assume big: "ofs \<ge> 0x100000000"
  show "fst y \<noteq> Inr ()"
  proof
    assume "fst y = Inr ()"
    with ZIP_seek_loop_post_aux [OF assms]
    have "(ucast (uncompressed_position (snd y)) :: u64) = ofs" by simp
    with ucast_u32_u64_less [of "uncompressed_position (snd y)"] big show False by simp
  qed
qed

lemma ZIP_seek_loop_hang_aux:
  assumes "ZIP_seek_loop E ofs finfo = Some y"
  shows "\<not> (ofs = 0x100000000 \<and> uncompressed_position finfo = 0
            \<and> 0x100000000 \<le> uncompressed_size (entry finfo)
            \<and> uncompressed_size (entry finfo) < 0x8000000000000000)"
  using assms
proof (induction rule: ZIP_seek_loop.raw_induct [rotated 1, consumes 1])
  case (1 loop E ofs finfo y)
  show ?case
  proof
    assume c: "ofs = 0x100000000 \<and> uncompressed_position finfo = 0
            \<and> 0x100000000 \<le> uncompressed_size (entry finfo)
            \<and> uncompressed_size (entry finfo) < 0x8000000000000000"
    have av: "0 < sint (uncompressed_size (entry finfo))"
      using sint_pos_u64 [of "uncompressed_size (entry finfo)"] c by simp
    have rd: "ZIP_read E finfo 0 = Some (0, None, [], finfo)"
      using c av by (simp add: ZIP_read_def Let_def)
    from 1(2) c rd have "loop E ofs finfo = Some y"
      by (simp add: Let_def)
    from 1(1) [OF this] c show False by simp
  qed
qed

lemma ZIP_seek_zero_at_start:
  assumes "uncompressed_position finfo = 0" "\<not> ZIP_IS_AES (entry finfo)"
    "zip_entry_is_tradional_crypto (entry finfo) \<or> compression_method (entry finfo) \<noteq> COMPMETH_NONE"
  shows "ZIP_seek E finfo 0 = Some (Inr (), finfo)"
proof -
  have "ZIP_seek_loop E 0 finfo = Some (Inr (), finfo)"
    using assms(1) by (subst ZIP_seek_loop.simps) simp
  then show ?thesis using assms
    by (auto simp: ZIP_seek_def ZIP_seek_decode_def Let_def)
qed

text \<open>
  C1 (a defect of the code). \<open>uncompressed_position\<close> is a 32-bit field and the seek
  offset a 64-bit value. On an entry that is compressed or traditionally encrypted, with
  an uncompressed size of 4 GiB or more, a seek from position 0 to offset \<open>2^32\<close> never
  returns: the loop asks \<open>ZIP_read\<close> for 0 bytes, gets 0 bytes and starts again. No seek
  to an offset of 4 GiB or more reports success, while the seek to 0 of the other side of
  the claim does.
\<close>

theorem C1_seek_4GiB_never_returns:
  assumes na: "\<not> ZIP_IS_AES (entry finfo)"
    and ec: "zip_entry_is_tradional_crypto (entry finfo)
           \<or> compression_method (entry finfo) \<noteq> COMPMETH_NONE"
    and lo: "0x100000000 \<le> uncompressed_size (entry finfo)"
    and hi: "uncompressed_size (entry finfo) < 0x8000000000000000"
    and p0: "uncompressed_position finfo = 0"
  shows "ZIP_seek E finfo 0x100000000 = None
     \<and> (\<forall>ofs finfo'. 0x100000000 \<le> ofs \<longrightarrow> ZIP_seek E finfo ofs \<noteq> Some (Inr (), finfo'))
     \<and> ZIP_seek E finfo 0 = Some (Inr (), finfo)"
proof -
  have dec: "\<And>ofs. \<not> ofs > uncompressed_size (entry finfo) \<Longrightarrow>
               ZIP_seek E finfo ofs = ZIP_seek_loop E ofs finfo"
    using na ec p0 by (auto simp: ZIP_seek_def ZIP_seek_decode_def Let_def)
  have a: "ZIP_seek E finfo 0x100000000 = None"
  proof (cases "ZIP_seek_loop E 0x100000000 finfo")
    case None
    with dec [of "0x100000000"] lo show ?thesis by (simp add: not_less)
  next
    case (Some y)
    from ZIP_seek_loop_hang_aux [OF Some] lo hi p0 show ?thesis by simp
  qed
  have b: "\<forall>ofs finfo'. 0x100000000 \<le> ofs \<longrightarrow> ZIP_seek E finfo ofs \<noteq> Some (Inr (), finfo')"
  proof (intro allI impI notI)
    fix ofs finfo'
    assume big: "0x100000000 \<le> ofs" and s: "ZIP_seek E finfo ofs = Some (Inr (), finfo')"
    from s have le: "\<not> ofs > uncompressed_size (entry finfo)"
      by (auto simp: ZIP_seek_def Let_def split: if_splits)
    from s dec [OF le] have "ZIP_seek_loop E ofs finfo = Some (Inr (), finfo')" by simp
    from ZIP_seek_loop_4GiB_aux [OF this] big show False by simp
  qed
  from a b ZIP_seek_zero_at_start [OF p0 na ec] show ?thesis by blast
qed

text \<open>Witness for C1: the 5 GiB entry of \<open>c1_file\<close>.\<close>

theorem C1_seek_4GiB_never_returns_witness:
  "\<not> ZIP_IS_AES (entry c1_file)
   \<and> zip_entry_is_tradional_crypto (entry c1_file)
   \<and> 0x100000000 \<le> uncompressed_size (entry c1_file)
   \<and> uncompressed_size (entry c1_file) < 0x8000000000000000
   \<and> uncompressed_position c1_file = 0
   \<and> ZIP_seek test_env c1_file 0x100000000 = None
   \<and> ZIP_seek test_env c1_file 0x100000005 \<noteq> Some (Inr (), c1_file)
   \<and> ZIP_seek test_env c1_file 0 = Some (Inr (), c1_file)"
proof -
  have a: "\<not> ZIP_IS_AES (entry c1_file)"
    by (simp add: c1_file_def ZIP_IS_AES_def ZIP_AES_128_BITS_def zero_finfo_def zero_entry_def zero_aes_def)
  have b: "zip_entry_is_tradional_crypto (entry c1_file)"
    by (simp add: c1_file_def zip_entry_is_tradional_crypto_def zero_finfo_def)
  have c: "0x100000000 \<le> uncompressed_size (entry c1_file)"
    by (simp add: c1_file_def zero_finfo_def)
  have d: "uncompressed_size (entry c1_file) < 0x8000000000000000"
    by (simp add: c1_file_def zero_finfo_def)
  have e: "uncompressed_position c1_file = 0"
    by (simp add: c1_file_def zero_finfo_def)
  have f: "(0x100000000 :: u64) \<le> 0x100000005" by simp
  from C1_seek_4GiB_never_returns [OF a disjI1 [OF b] c d e, of test_env] a b c d e f
  show ?thesis by blast
qed

text \<open>
  C9 (a defect of the code, the same 32-bit position). On the stored entry of 5 GiB the
  seek to \<open>uncompressed_size\<close> succeeds but leaves position \<open>2^30\<close>; the read after it
  does not return 0 bytes, it returns the 4 bytes that follow the entry's data.
\<close>

theorem C9_seek_end_5GiB:
  "ZIP_seek E c9_file (uncompressed_size (entry c9_file)) =
     Some (Inr (), c9_file\<lparr>finfo_io := (finfo_io c9_file)\<lparr>io_pos := 5368709120\<rparr>,
                          uncompressed_position := 1073741824\<rparr>)
   \<and> ZIP_read E (c9_file\<lparr>finfo_io := (finfo_io c9_file)\<lparr>io_pos := 5368709120\<rparr>,
                         uncompressed_position := 1073741824\<rparr>) 4 =
     Some (4, None, [0x50, 0x4B, 0x01, 0x02],
           c9_file\<lparr>finfo_io := (finfo_io c9_file)\<lparr>io_pos := 5368709124\<rparr>,
                    uncompressed_position := 1073741828\<rparr>)"
proof -
  have s: "ZIP_seek E c9_file (uncompressed_size (entry c9_file)) =
     Some (Inr (), c9_file\<lparr>finfo_io := (finfo_io c9_file)\<lparr>io_pos := 5368709120\<rparr>,
                          uncompressed_position := 1073741824\<rparr>)"
    by (simp add: c9_file_def zero_finfo_def zero_entry_def ZIP_seek_def ZIP_seek_plain_def
          zip_entry_is_tradional_crypto_def COMPMETH_NONE_def io_seek_def Let_def)
  have r: "ZIP_read E (c9_file\<lparr>finfo_io := (finfo_io c9_file)\<lparr>io_pos := 5368709120\<rparr>,
                         uncompressed_position := 1073741824\<rparr>) 4 =
     Some (4, None, [0x50, 0x4B, 0x01, 0x02],
           c9_file\<lparr>finfo_io := (finfo_io c9_file)\<lparr>io_pos := 5368709124\<rparr>,
                    uncompressed_position := 1073741828\<rparr>)"
    by (simp add: c9_file_def zero_finfo_def zero_entry_def ZIP_read_def ZIP_read_finish_def
          zip_read_decrypt_def zip_entry_is_tradional_crypto_def COMPMETH_NONE_def io_read_def Let_def)
  from s r show ?thesis by simp
qed

section \<open>The checks of the local file header\<close>

lemma readAll_at:
  "io_pos io + n \<le> length (io_data io) \<Longrightarrow>
   readAll io n = Inr (take n (drop (io_pos io) (io_data io)), io\<lparr>io_pos := io_pos io + n\<rparr>)"
  by (simp add: readAll_def io_read_def Let_def)

lemma readui32_at:
  "io_pos io + 4 \<le> length (io_data io) \<Longrightarrow>
   readui32 io = Inr (le_at (io_data io) (io_pos io) 4, io\<lparr>io_pos := io_pos io + 4\<rparr>)"
  by (simp add: readui32_def readAll_at le_at_def)

lemma readui16_at:
  "io_pos io + 2 \<le> length (io_data io) \<Longrightarrow>
   readui16 io = Inr (le_at (io_data io) (io_pos io) 2, io\<lparr>io_pos := io_pos io + 2\<rparr>)"
  by (simp add: readui16_def readAll_at le_at_def)

lemma zip_parse_local_header_char:
  assumes len: "unat (offset e) + 30 \<le> length (io_data io)"
    and sg: "le_at (io_data io) (unat (offset e)) 4 = ZIP_LOCAL_FILE_SIG"
    and vn: "le_at (io_data io) (unat (offset e) + 4) 2 = version_needed e"
  shows "zip_parse_local_header io e =
     (let d = io_data io; p = unat (offset e);
          lmeth = (le_at d (p + 8) 2 :: u16);
          lcrc = (le_at d (p + 14) 4 :: u32);
          lcs = (le_at d (p + 18) 4 :: u32);
          lus = (le_at d (p + 22) 4 :: u32)
      in if ZIP_IS_AES e \<and> (if lmeth = 0 then 1 else 0) \<noteq> compression_method e
         then Inl ERR_CORRUPT
         else if (lcrc = 0 \<or> lcrc = crc e)
            \<and> (lcs = 0 \<or> lcs = 0xFFFFFFFF \<or> ucast lcs = compressed_size e)
            \<and> (lus = 0 \<or> lus = 0xFFFFFFFF \<or> ucast lus = uncompressed_size e)
         then Inr (le_at d (p + 26) 2, le_at d (p + 28) 2, io\<lparr>io_pos := p + 30\<rparr>)
         else Inl ERR_CORRUPT)"
proof -
  let ?d = "io_data io" and ?p = "unat (offset e)"
  have sk: "io_seek io ?p = Inr (io\<lparr>io_pos := ?p\<rparr>)"
    using len by (simp add: io_seek_def)
  have r32: "\<And>q. q + 4 \<le> length ?d \<Longrightarrow>
      readui32 (io\<lparr>io_pos := q\<rparr>) = Inr (le_at ?d q 4, io\<lparr>io_pos := q + 4\<rparr>)"
    by (simp add: readui32_at)
  have r16: "\<And>q. q + 2 \<le> length ?d \<Longrightarrow>
      readui16 (io\<lparr>io_pos := q\<rparr>) = Inr (le_at ?d q 2, io\<lparr>io_pos := q + 2\<rparr>)"
    by (simp add: readui16_at)
  have r0: "readui32 (io\<lparr>io_pos := ?p\<rparr>) = Inr (ZIP_LOCAL_FILE_SIG, io\<lparr>io_pos := ?p + 4\<rparr>)"
    using r32 [of ?p] len sg by simp
  have r4: "readui16 (io\<lparr>io_pos := ?p + 4\<rparr>) = Inr (version_needed e, io\<lparr>io_pos := ?p + 6\<rparr>)"
    using r16 [of "?p + 4"] len vn by simp
  have r6: "readui16 (io\<lparr>io_pos := ?p + 6\<rparr>) = Inr (le_at ?d (?p + 6) 2, io\<lparr>io_pos := ?p + 8\<rparr>)"
    using r16 [of "?p + 6"] len by simp
  have r8: "readui16 (io\<lparr>io_pos := ?p + 8\<rparr>) = Inr (le_at ?d (?p + 8) 2, io\<lparr>io_pos := ?p + 10\<rparr>)"
    using r16 [of "?p + 8"] len by simp
  have r10: "readui32 (io\<lparr>io_pos := ?p + 10\<rparr>) = Inr (le_at ?d (?p + 10) 4, io\<lparr>io_pos := ?p + 14\<rparr>)"
    using r32 [of "?p + 10"] len by simp
  have r14: "readui32 (io\<lparr>io_pos := ?p + 14\<rparr>) = Inr (le_at ?d (?p + 14) 4, io\<lparr>io_pos := ?p + 18\<rparr>)"
    using r32 [of "?p + 14"] len by simp
  have r18: "readui32 (io\<lparr>io_pos := ?p + 18\<rparr>) = Inr (le_at ?d (?p + 18) 4, io\<lparr>io_pos := ?p + 22\<rparr>)"
    using r32 [of "?p + 18"] len by simp
  have r22: "readui32 (io\<lparr>io_pos := ?p + 22\<rparr>) = Inr (le_at ?d (?p + 22) 4, io\<lparr>io_pos := ?p + 26\<rparr>)"
    using r32 [of "?p + 22"] len by simp
  have r26: "readui16 (io\<lparr>io_pos := ?p + 26\<rparr>) = Inr (le_at ?d (?p + 26) 2, io\<lparr>io_pos := ?p + 28\<rparr>)"
    using r16 [of "?p + 26"] len by simp
  have r28: "readui16 (io\<lparr>io_pos := ?p + 28\<rparr>) = Inr (le_at ?d (?p + 28) 2, io\<lparr>io_pos := ?p + 30\<rparr>)"
    using r16 [of "?p + 28"] len by simp
  show ?thesis
    unfolding zip_parse_local_header_def sk
    by (simp only: ebind_Inr ebind_Inl prod.case r0 r4 r6 r8 r10 r14 r18 r22 r26 r28
          simp_thms if_True if_False Let_def)
       auto
qed

text \<open>
  C3 (as amended). For every entry, AES or not, whose local file header lies within the
  byte source and carries the signature and the version needed of the central directory,
  and, when the entry is AES, a compression method whose negation equals the method of
  the entry: the header is accepted exactly when the local CRC is 0 or equals the central
  CRC, the local compressed size is 0, \<open>0xFFFFFFFF\<close> or equals the central one, and the
  local uncompressed size is 0, \<open>0xFFFFFFFF\<close> or equals the central one. An accepted
  header moves \<open>offset\<close> past the header, the name and the extra field, and an AES entry
  then goes on to read its salt and password verifier. A header that is not accepted
  fails with \<open>ERR_CORRUPT\<close> and leaves the entry as it was. A local CRC of
  \<open>0xFFFFFFFF\<close> is compared like any other value.
\<close>

theorem C3_local_header_checks:
  assumes len: "unat (offset e) + 30 \<le> length (io_data io)"
    and sg: "le_at (io_data io) (unat (offset e)) 4 = ZIP_LOCAL_FILE_SIG"
    and vn: "le_at (io_data io) (unat (offset e) + 4) 2 = version_needed e"
  shows "zip_parse_local io e =
     (let d = io_data io; p = unat (offset e);
          lmeth = (le_at d (p + 8) 2 :: u16);
          lcrc = (le_at d (p + 14) 4 :: u32);
          lcs = (le_at d (p + 18) 4 :: u32);
          lus = (le_at d (p + 22) 4 :: u32);
          fnamelen = (le_at d (p + 26) 2 :: u16);
          extralen = (le_at d (p + 28) 2 :: u16);
          e1 = e\<lparr>offset := offset e + (ucast fnamelen + ucast extralen + 30)\<rparr>
      in if ZIP_IS_AES e \<and> (if lmeth = 0 then 1 else 0) \<noteq> compression_method e
         then (Inl ERR_CORRUPT, e)
         else if (lcrc = 0 \<or> lcrc = crc e)
            \<and> (lcs = 0 \<or> lcs = 0xFFFFFFFF \<or> ucast lcs = compressed_size e)
            \<and> (lus = 0 \<or> lus = 0xFFFFFFFF \<or> ucast lus = uncompressed_size e)
         then (if ZIP_IS_AES e then zip_parse_local_aes (io\<lparr>io_pos := p + 30\<rparr>) e1
               else (Inr (io\<lparr>io_pos := p + 30\<rparr>), e1))
         else (Inl ERR_CORRUPT, e))"
proof -
  have a: "\<And>x. ZIP_IS_AES (e\<lparr>offset := x\<rparr>) = ZIP_IS_AES e"
    by (simp add: ZIP_IS_AES_def)
  show ?thesis
    unfolding zip_parse_local_def zip_parse_local_header_char [OF len sg vn]
    by (simp add: Let_def a)
qed

lemmas io_eval = io_seek_def io_read_def readAll_def readui8_def readui16_def readui32_def
  readui64_def le_at_def Let_def

lemmas parse_local_eval = zip_parse_local_def zip_parse_local_header_def ZIP_IS_AES_def
  ZIP_AES_128_BITS_def ZIP_LOCAL_FILE_SIG_def zero_entry_def zero_aes_def

text \<open>Witness for C3: a header with CRC 0 and compressed size \<open>0xFFFFFFFF\<close>.\<close>

theorem C3_local_header_checks_witness:
  "unat (offset c3_entry) + 30 \<le> length (io_data \<lparr>io_data = c3_header [0, 0, 0, 0], io_pos = 0\<rparr>)
   \<and> le_at (c3_header [0, 0, 0, 0]) 0 4 = ZIP_LOCAL_FILE_SIG
   \<and> le_at (c3_header [0, 0, 0, 0]) 4 2 = version_needed c3_entry
   \<and> zip_parse_local \<lparr>io_data = c3_header [0, 0, 0, 0], io_pos = 0\<rparr> c3_entry =
       (Inr \<lparr>io_data = c3_header [0, 0, 0, 0], io_pos = 30\<rparr>, c3_entry\<lparr>offset := 31\<rparr>)"
proof -
  let ?io = "\<lparr>io_data = c3_header [0, 0, 0, 0], io_pos = 0\<rparr>"
  have o: "unat (offset c3_entry) = 0" by (simp add: c3_entry_def zero_entry_def)
  have l: "unat (offset c3_entry) + 30 \<le> length (io_data ?io)"
    by (simp add: o c3_header_def)
  have s: "le_at (io_data ?io) (unat (offset c3_entry)) 4 = ZIP_LOCAL_FILE_SIG"
    by (simp add: o c3_header_def le_at_def ZIP_LOCAL_FILE_SIG_def)
  have v: "le_at (io_data ?io) (unat (offset c3_entry) + 4) 2 = version_needed c3_entry"
    by (simp add: o c3_header_def le_at_def c3_entry_def zero_entry_def)
  have n: "\<not> ZIP_IS_AES c3_entry"
    by (simp add: c3_entry_def zero_entry_def zero_aes_def ZIP_IS_AES_def ZIP_AES_128_BITS_def)
  have f: "(le_at (c3_header [0, 0, 0, 0]) 14 4 :: u32) = 0"
      "(le_at (c3_header [0, 0, 0, 0]) 18 4 :: u32) = 0xFFFFFFFF"
      "(le_at (c3_header [0, 0, 0, 0]) 22 4 :: u32) = 5"
      "(le_at (c3_header [0, 0, 0, 0]) 26 2 :: u16) = 1"
      "(le_at (c3_header [0, 0, 0, 0]) 28 2 :: u16) = 0"
    by (simp_all add: c3_header_def le_at_def)
  have off: "offset c3_entry = 0" "uncompressed_size c3_entry = 5"
    by (simp_all add: c3_entry_def zero_entry_def)
  from C3_local_header_checks [OF l s v] l s v n
  show ?thesis by (simp add: o f off Let_def)
qed

text \<open>
  Counterexample to C3 as stated: the same header with a CRC field of \<open>0xFFFFFFFF\<close>,
  where the central CRC is \<open>0x12345678\<close>, is refused with \<open>ERR_CORRUPT\<close>.
\<close>

theorem C3_counterexample:
  "le_at (c3_header [0xFF, 0xFF, 0xFF, 0xFF]) 0 4 = ZIP_LOCAL_FILE_SIG
   \<and> le_at (c3_header [0xFF, 0xFF, 0xFF, 0xFF]) 4 2 = version_needed c3_entry
   \<and> (le_at (c3_header [0xFF, 0xFF, 0xFF, 0xFF]) 14 4 :: u32) = 0xFFFFFFFF
   \<and> zip_parse_local \<lparr>io_data = c3_header [0xFF, 0xFF, 0xFF, 0xFF], io_pos = 0\<rparr> c3_entry =
       (Inl ERR_CORRUPT, c3_entry)"
  by (simp add: c3_header_def c3_entry_def io_eval parse_local_eval cong: eval_congs)

text \<open>
  The checks on an AES entry of 256 bits: with a local CRC that is neither 0 nor the
  central CRC the header of \<open>c3_aes_entry\<close> is refused with \<open>ERR_CORRUPT\<close>.
\<close>

lemma zip_parse_local_aes_crc_checked:
  "ZIP_IS_AES c3_aes_entry
   \<and> zip_parse_local \<lparr>io_data = c3_aes_header [1, 0, 0, 0], io_pos = 0\<rparr> c3_aes_entry =
       (Inl ERR_CORRUPT, c3_aes_entry)"
  by (simp add: c3_aes_header_def c3_header_def c3_aes_entry_def c3_entry_def io_eval
        parse_local_eval cong: eval_congs)

section \<open>The search for the end of the central directory\<close>

lemmas eocd_eval = zip_find_end_of_central_dir_def eocd_loop.simps io_length_def io_seek_def
  readAll_int_def readAll_def io_read_def Let_def

text \<open>
  C6 (a defect of the code). The scan \<open>for (i = maxread - 4; i > 0; i--)\<close> never looks
  at index 0 of the buffer. Between two buffers the overlap of 4 bytes makes up for it; at
  position 0 of the file nothing does: the archive without entries, whose signature is at
  position 0 and within the last 65557 bytes, is not found.
\<close>

theorem C6_empty_archive_not_found:
  "take 4 (drop 0 empty_zip) = [0x50, 0x4B, 0x05, 0x06]
   \<and> length empty_zip = 22
   \<and> zip_find_end_of_central_dir \<lparr>io_data = empty_zip, io_pos = 0\<rparr> = Some (Inl ERR_UNSUPPORTED)"
  by (simp add: empty_zip_def eocd_eval cong: eval_congs)

text \<open>
  The second way to miss a signature: when \<open>filepos\<close> is cut to 0, the buffer is the
  first 252 bytes of the file followed by four bytes that do not follow them in the file.
  In the file of 506 bytes the record at position 249 is not found.
\<close>

lemma replicate_4: "replicate 4 x = [x, x, x, x]"
  by (simp add: numeral_Bit0 flip: replicate_add)

lemma EOCD_with_comment_not_found:
  "take 4 (drop 249 comment_zip) = [0x50, 0x4B, 0x05, 0x06]
   \<and> length comment_zip = 506
   \<and> zip_find_end_of_central_dir \<lparr>io_data = comment_zip, io_pos = 0\<rparr> = Some (Inl ERR_UNSUPPORTED)"
  by (simp add: comment_zip_def eocd_eval replicate_4 cong: eval_congs)

section \<open>The resolution state of a loaded entry\<close>

lemma host_u16: "unat (ucast (drop_bit 8 (v :: u16) AND 0xFF) :: u8) = unat (drop_bit 8 v)"
proof -
  have m: "(0xFF :: u16) = mask 8" by (simp add: mask_eq_exp_minus_1)
  have "(ucast (drop_bit 8 v AND 0xFF) :: u8) = ucast (drop_bit 8 v)"
    unfolding m by (rule bit_word_eqI) (auto simp: bit_simps)
  moreover have "unat (drop_bit 8 v) < 256"
    using unsigned_less [of v, where ?'a = nat] by (simp add: unat_drop_bit_eq drop_bit_eq_div unat_div)
  ultimately show ?thesis by (simp add: unsigned_ucast_eq take_bit_nat_eq_self)
qed

lemma host_u32: "unat (ucast (drop_bit 8 (ucast (v :: u16) :: u32) AND 0xFF) :: u8) = unat (drop_bit 8 v)"
proof -
  have m: "(0xFF :: u32) = mask 8" by (simp add: mask_eq_exp_minus_1)
  have "(ucast (drop_bit 8 (ucast v :: u32) AND 0xFF) :: u8) = ucast (drop_bit 8 v)"
    unfolding m by (rule bit_word_eqI) (auto simp: bit_simps)
  moreover have "unat (drop_bit 8 v) < 256"
    using unsigned_less [of v, where ?'a = nat] by (simp add: unat_drop_bit_eq drop_bit_eq_div unat_div)
  ultimately show ?thesis by (simp add: unsigned_ucast_eq take_bit_nat_eq_self)
qed

lemma xattr_high: "(ucast (drop_bit 16 (x :: u32) AND 0xFFFF) :: u16) = ucast (drop_bit 16 x)"
proof -
  have m: "(0xFFFF :: u32) = mask 16" by (simp add: mask_eq_exp_minus_1)
  show ?thesis unfolding m by (rule bit_word_eqI) (auto simp: bit_simps)
qed

lemma usize_pos: "((ucast (u :: u32) :: u64) > 0) = (u \<noteq> 0)"
proof -
  have "uint (ucast u :: u64) = uint u" by (rule uint_ucast_u32_u64)
  then show ?thesis
    by (simp add: word_less_iff_unsigned [where ?'a = int] word_uint_eq_iff)
       (metis less_le uint_ge_0)
qed

lemma zip_version_does_symlinks_host:
  "zip_version_does_symlinks (ucast (v :: u16)) =
     (unat (drop_bit 8 v) \<notin> {0, 1, 2, 4, 6, 11, 13, 14, 15, 18})"
proof -
  define h where "h = (ucast (drop_bit 8 (ucast v :: u32) AND 0xFF) :: u8)"
  have u: "unat h = unat (drop_bit 8 v)" unfolding h_def by (rule host_u32)
  have "zip_version_does_symlinks (ucast v) =
      (\<not> (h = 0 \<or> h = 1 \<or> h = 2 \<or> h = 4 \<or> h = 6 \<or> h = 11 \<or> h = 14 \<or> h = 13 \<or> h = 15 \<or> h = 18))"
    unfolding zip_version_does_symlinks_def h_def Let_def by simp
  also have "\<dots> = (unat h \<notin> {0, 1, 2, 4, 6, 11, 13, 14, 15, 18})"
    by (simp add: word_unat_eq_iff) blast
  finally show ?thesis unfolding u .
qed

lemma zip_has_symlink_attr_char:
  "uncompressed_size ent = ucast (usize :: u32) \<Longrightarrow>
   zip_has_symlink_attr ent xattr =
     ((ucast (drop_bit 16 xattr) :: u16) AND 0xF000 = 0xA000
      \<and> unat (drop_bit 8 (version ent)) \<notin> {0, 1, 2, 4, 6, 11, 13, 14, 15, 18}
      \<and> usize \<noteq> 0)"
  unfolding zip_has_symlink_attr_def Let_def
  by (simp add: zip_version_does_symlinks_host usize_pos xattr_high UNIX_FILETYPE_MASK_def
        UNIX_FILETYPE_SYMLINK_def conj_ac)

lemma zip_convert_dos_path_last:
  "buf \<noteq> [] \<Longrightarrow>
   (zip_convert_dos_path ent buf \<noteq> [] \<and> last (zip_convert_dos_path ent buf) = CH_SLASH) =
     (last buf = CH_SLASH
      \<or> unat (drop_bit 8 (version ent)) = 0 \<and> last buf = CH_BACKSLASH \<and> 0 \<notin> set buf)"
proof -
  assume ne: "buf \<noteq> []"
  define h where "h = (ucast (drop_bit 8 (version ent) AND 0xFF) :: u8)"
  have u: "unat h = unat (drop_bit 8 (version ent))" unfolding h_def by (rule host_u16)
  have h0: "(h = 0) = (unat (drop_bit 8 (version ent)) = 0)"
    using u by (simp add: word_unat_eq_iff)
  show ?thesis
  proof (cases "h = 0")
    case False
    then show ?thesis using h0 ne
      by (simp add: zip_convert_dos_path_def Let_def h_def [symmetric])
  next
    case True
    show ?thesis
    proof (cases "0 \<in> set buf")
      case True
      then have nb: "cstr buf \<noteq> buf" by (auto simp: cstr_def takeWhile_eq_all_conv)
      have tk: "cstr buf = take (length (cstr buf)) buf"
        unfolding cstr_def by (rule takeWhile_eq_take)
      have "length (cstr buf) \<le> length buf" by (simp add: cstr_def length_takeWhile_le)
      moreover have "length (cstr buf) \<noteq> length buf"
      proof
        assume "length (cstr buf) = length buf"
        with tk have "cstr buf = buf" by simp
        with nb show False by simp
      qed
      ultimately have "length (cstr buf) < length buf" by simp
      then have "drop (length (cstr buf)) buf \<noteq> []" by simp
      then show ?thesis using \<open>h = 0\<close> h0 ne True
        by (simp add: zip_convert_dos_path_def Let_def h_def [symmetric])
    next
      case False
      then have "cstr buf = buf" unfolding cstr_def by (auto simp: takeWhile_eq_all_conv)
      then show ?thesis using \<open>h = 0\<close> h0 ne False
        by (auto simp: zip_convert_dos_path_def Let_def h_def [symmetric] last_map
              CH_SLASH_def CH_BACKSLASH_def)
    qed
  qed
qed

lemma readAll_val:
  "readAll io n = Inr (bs, io') \<Longrightarrow> 0 < n \<Longrightarrow>
   bs = take n (drop (io_pos io) (io_data io)) \<and> io' = io\<lparr>io_pos := io_pos io + n\<rparr>
   \<and> io_pos io + n \<le> length (io_data io)"
  by (auto simp: readAll_def io_read_def Let_def split: if_splits)

lemma readui16_val:
  "readui16 io = Inr (v, io') \<Longrightarrow>
   v = le_at (io_data io) (io_pos io) 2 \<and> io' = io\<lparr>io_pos := io_pos io + 2\<rparr>
   \<and> io_pos io + 2 \<le> length (io_data io)"
  unfolding readui16_def le_at_def by (erule ebind_InrE) (auto dest: readAll_val)

lemma readui32_val:
  "readui32 io = Inr (v, io') \<Longrightarrow>
   v = le_at (io_data io) (io_pos io) 4 \<and> io' = io\<lparr>io_pos := io_pos io + 4\<rparr>
   \<and> io_pos io + 4 \<le> length (io_data io)"
  unfolding readui32_def le_at_def by (erule ebind_InrE) (auto dest: readAll_val)

lemma ebind_readui16_InrD:
  "ebind (readui16 io) f = Inr r \<Longrightarrow>
   io_pos io + 2 \<le> length (io_data io)
   \<and> f (le_at (io_data io) (io_pos io) 2, io\<lparr>io_pos := io_pos io + 2\<rparr>) = Inr r"
  by (erule ebind_InrE) (auto dest!: readui16_val)

lemma ebind_readui32_InrD:
  "ebind (readui32 io) f = Inr r \<Longrightarrow>
   io_pos io + 4 \<le> length (io_data io)
   \<and> f (le_at (io_data io) (io_pos io) 4, io\<lparr>io_pos := io_pos io + 4\<rparr>) = Inr r"
  by (erule ebind_InrE) (auto dest!: readui32_val)

lemma zip_load_fixed_val:
  assumes "zip_load_fixed E io = Inr (ent, fnamelen, extralen, commentlen, disk, xattr, ofs, io1)"
  shows "version ent = le_at (io_data io) (io_pos io + 4) 2
       \<and> uncompressed_size ent = ucast (le_at (io_data io) (io_pos io + 24) 4 :: u32)
       \<and> fnamelen = le_at (io_data io) (io_pos io + 28) 2
       \<and> xattr = le_at (io_data io) (io_pos io + 38) 4
       \<and> io1 = io\<lparr>io_pos := io_pos io + 46\<rparr>
       \<and> io_pos io + 46 \<le> length (io_data io)"
  using assms unfolding zip_load_fixed_def
  apply -
  apply (drule ebind_readui32_InrD, clarsimp split: if_splits)
  apply ((drule ebind_readui16_InrD | drule ebind_readui32_InrD), clarsimp)+
  apply (simp add: add.commute)
  done

lemma zip64_extra_resolved:
  "zip64_extra io len e ofs disk = Inr (io', e', r) \<Longrightarrow> resolved e' = resolved e"
  unfolding zip64_extra_def
  by (auto elim!: ebind_InrE split: if_splits)

lemma aes_extra_resolved:
  "aes_extra io e = Inr (io', e') \<Longrightarrow> resolved e' = resolved e"
  unfolding aes_extra_def
  by (auto elim!: ebind_InrE split: if_splits)

lemma zip_load_extra_resolved:
  "zip_load_extra io x e ofs disk = Inr (io', e', r) \<Longrightarrow> resolved e' = resolved e"
proof (induction io x e ofs disk rule: zip_load_extra.induct)
  case (1 io extralen2 e ofs disk)
  show ?case
  proof (cases "extralen2 > 4")
    case False
    with "1.prems" show ?thesis by (simp add: zip_load_extra.simps [of io extralen2])
  next
    case True
    with "1.prems" show ?thesis
      apply (subst (asm) zip_load_extra.simps)
      apply simp
      apply (erule ebind_InrE, clarsimp)
      apply (erule ebind_InrE, clarsimp simp: Let_def split: if_splits)
        apply (erule ebind_InrE, clarsimp)
        apply (frule zip64_extra_resolved)
      using "1.IH"(1) apply fastforce
       apply (erule ebind_InrE, clarsimp)
       apply (frule aes_extra_resolved)
      using "1.IH"(2) apply fastforce
      apply (erule ebind_InrE)
      using "1.IH"(3) apply fastforce
      done
  qed
qed

text \<open>
  C4 (as amended). When \<open>zip_load_entry\<close> succeeds on a central directory record, the
  state of the loaded entry is decided by the bytes of the record: it is
  \<open>ZIP_DIRECTORY\<close> when the name is not empty and its last byte is a slash, or a
  backslash in a name without NUL made on a FAT host (host byte 0), which
  \<open>zip_convert_dos_path\<close> turns into a slash. Otherwise it is \<open>ZIP_UNRESOLVED_SYMLINK\<close>
  exactly when the high 16 bits of the external attributes have the file type
  \<open>0120000\<close> (\<open>0xA000\<close> under the mask \<open>0xF000\<close>), the host byte of the version made
  by is not one of 0, 1, 2, 4, 6, 11, 13, 14, 15, 18, and the 32-bit uncompressed size
  of the record is not 0; in every other case it is \<open>ZIP_UNRESOLVED_FILE\<close>.
\<close>

theorem C4_resolution_state:
  assumes "zip_load_entry E io z fixup = Inr (e, io')"
  shows "resolved e =
     (let d = io_data io; p = io_pos io;
          ver = (le_at d (p + 4) 2 :: u16);
          usize = (le_at d (p + 24) 4 :: u32);
          fnamelen = unat (le_at d (p + 28) 2 :: u16);
          external_attr = (le_at d (p + 38) 4 :: u32);
          raw = take fnamelen (drop (p + 46) d);
          host = unat (drop_bit 8 ver);
          is_dir = (raw \<noteq> [] \<and>
                    (last raw = CH_SLASH
                     \<or> host = 0 \<and> last raw = CH_BACKSLASH \<and> 0 \<notin> set raw))
      in if is_dir then ZIP_DIRECTORY
         else if (ucast (drop_bit 16 external_attr) :: u16) AND 0xF000 = 0xA000
                 \<and> host \<notin> {0, 1, 2, 4, 6, 11, 13, 14, 15, 18}
                 \<and> usize \<noteq> 0
         then ZIP_UNRESOLVED_SYMLINK
         else ZIP_UNRESOLVED_FILE)"
proof -
  define retval where "retval ent xattr buf =
     (if zip_convert_dos_path ent buf \<noteq> [] \<and> last (zip_convert_dos_path ent buf) = CH_SLASH
      then ent\<lparr>name := cstr (butlast (zip_convert_dos_path ent buf)), symlink := None,
             resolved := ZIP_DIRECTORY\<rparr>
      else ent\<lparr>name := cstr (zip_convert_dos_path ent buf), symlink := None,
             resolved := (if zip_has_symlink_attr ent xattr
                          then ZIP_UNRESOLVED_SYMLINK else ZIP_UNRESOLVED_FILE)\<rparr>)"
    for ent :: ZIPentry and xattr :: u32 and buf :: "u8 list"
  from assms [unfolded zip_load_entry_def Let_def, folded retval_def] obtain v where
    a: "zip_load_fixed E io = Inr v" and
    b: "(case v of (ent, fnamelen, extralen, commentlen, starting_disk, external_attr, ofs, io) \<Rightarrow>
         ebind (readAll io (unat fnamelen)) (\<lambda>(buf, io).
           ebind (zip_load_extra io extralen (retval ent external_attr buf) ofs starting_disk)
            (\<lambda>(io2, rv, ofs2, starting_disk).
              if starting_disk \<noteq> 0 then Inl ERR_CORRUPT else
              ebind (io_seek io2 (io_tell io + unat extralen + unat commentlen)) (\<lambda>io.
                Inr (rv\<lparr>offset := ofs2 + fixup\<rparr>, io))))) = Inr (e, io')"
    by (rule ebind_InrE)
  obtain ent fnamelen extralen commentlen disk xattr ofs io1 where
    v: "v = (ent, fnamelen, extralen, commentlen, disk, xattr, ofs, io1)"
    by (metis surj_pair)
  from b [unfolded v prod.case] obtain w where
    c: "readAll io1 (unat fnamelen) = Inr w" and
    d: "(case w of (buf, io) \<Rightarrow>
           ebind (zip_load_extra io extralen (retval ent xattr buf) ofs disk)
            (\<lambda>(io2, rv, ofs2, starting_disk).
              if starting_disk \<noteq> 0 then Inl ERR_CORRUPT else
              ebind (io_seek io2 (io_tell io + unat extralen + unat commentlen)) (\<lambda>io.
                Inr (rv\<lparr>offset := ofs2 + fixup\<rparr>, io)))) = Inr (e, io')"
    by (rule ebind_InrE)
  obtain buf io2 where w: "w = (buf, io2)" by (cases w)
  from d [unfolded w prod.case] obtain x where
    f: "zip_load_extra io2 extralen (retval ent xattr buf) ofs disk = Inr x" and
    g: "(case x of (io3, rv, ofs2, starting_disk) \<Rightarrow>
              if starting_disk \<noteq> 0 then Inl ERR_CORRUPT else
              ebind (io_seek io3 (io_tell io2 + unat extralen + unat commentlen)) (\<lambda>io.
                Inr (rv\<lparr>offset := ofs2 + fixup\<rparr>, io))) = Inr (e, io')"
    by (rule ebind_InrE)
  obtain io3 rv ofs2 disk2 where x: "x = (io3, rv, ofs2, disk2)" by (metis surj_pair)
  from g [unfolded x prod.case] have e: "e = rv\<lparr>offset := ofs2 + fixup\<rparr>"
    by (auto elim!: ebind_InrE split: if_splits)
  from f x have "resolved rv = resolved (retval ent xattr buf)"
    by (simp add: zip_load_extra_resolved)
  with e have res: "resolved e = resolved (retval ent xattr buf)" by simp
  note fv = zip_load_fixed_val [OF a [unfolded v]]
  have buf: "buf = take (unat fnamelen) (drop (io_pos io + 46) (io_data io))"
    using c w fv by (auto simp: readAll_def io_read_def Let_def split: if_splits)
  have sym: "zip_has_symlink_attr ent xattr =
     ((ucast (drop_bit 16 xattr) :: u16) AND 0xF000 = 0xA000
      \<and> unat (drop_bit 8 (version ent)) \<notin> {0, 1, 2, 4, 6, 11, 13, 14, 15, 18}
      \<and> (le_at (io_data io) (io_pos io + 24) 4 :: u32) \<noteq> 0)"
    using fv by (intro zip_has_symlink_attr_char) simp
  have nil: "zip_convert_dos_path ent [] = []"
    by (simp add: zip_convert_dos_path_def cstr_def Let_def)
  have "resolved (retval ent xattr buf) =
     (if buf \<noteq> [] \<and> (last buf = CH_SLASH
          \<or> unat (drop_bit 8 (version ent)) = 0 \<and> last buf = CH_BACKSLASH \<and> 0 \<notin> set buf)
      then ZIP_DIRECTORY
      else if zip_has_symlink_attr ent xattr then ZIP_UNRESOLVED_SYMLINK
      else ZIP_UNRESOLVED_FILE)"
  proof (cases "buf = []")
    case True
    then show ?thesis by (simp add: retval_def nil)
  next
    case False
    from zip_convert_dos_path_last [OF False, of ent] show ?thesis
      using False by (simp add: retval_def)
  qed
  with res show ?thesis
    unfolding sym Let_def using fv buf by simp
qed

lemmas load_entry_eval = zip_load_entry_def zip_load_fixed_def zip_load_extra.simps
  zip_convert_dos_path_def cstr_def zip_has_symlink_attr_def zip_version_does_symlinks_def
  zip_dos_time_to_physfs_time_def ZIP_CENTRAL_DIR_SIG_def zero_entry_def zero_aes_def
  UNIX_FILETYPE_MASK_def UNIX_FILETYPE_SYMLINK_def CH_SLASH_def CH_BACKSLASH_def io_tell_def

text \<open>
  Witness for C4: the record of a symbolic link of 5 bytes made on a unix host is loaded
  as \<open>ZIP_UNRESOLVED_SYMLINK\<close>.
\<close>

theorem C4_resolution_state_witness:
  "\<exists>e io'. zip_load_entry test_env \<lparr>io_data = c4_record 5, io_pos = 0\<rparr> False 0 = Inr (e, io')
      \<and> name e = [0x6C] \<and> resolved e = ZIP_UNRESOLVED_SYMLINK"
proof -
  obtain e io' where
    ev: "zip_load_entry test_env \<lparr>io_data = c4_record 5, io_pos = 0\<rparr> False 0 = Inr (e, io')"
    and nm: "name e = [0x6C]"
    by (simp add: load_entry_eval io_eval c4_record_def test_env_def cong: eval_congs)
  from C4_resolution_state [OF ev] have "resolved e = ZIP_UNRESOLVED_SYMLINK"
    by (simp add: c4_record_def le_at_def Let_def CH_SLASH_def CH_BACKSLASH_def)
  with ev nm show ?thesis by simp
qed

text \<open>
  The same record with an uncompressed size of 0: the external attributes encode a
  symbolic link, the host is unix-like and the name does not end in a slash, and the
  entry is loaded as \<open>ZIP_UNRESOLVED_FILE\<close>.
\<close>

theorem C4_counterexample:
  "(ucast (drop_bit 16 (le_at (c4_record 0) 38 4 :: u32)) :: u16) AND 0xF000 = 0xA000
   \<and> zip_version_does_symlinks (ucast (le_at (c4_record 0) 4 2 :: u16))
   \<and> take 1 (drop 46 (c4_record 0)) = [0x6C]
   \<and> (\<exists>e io'. zip_load_entry test_env \<lparr>io_data = c4_record 0, io_pos = 0\<rparr> False 0 = Inr (e, io')
         \<and> resolved e = ZIP_UNRESOLVED_FILE)"
  by (simp add: load_entry_eval io_eval c4_record_def test_env_def cong: eval_congs)

section \<open>Duplicate names in the central directory\<close>




















text \<open>A record of \<open>a\<close> after a record of \<open>a\<close> is a duplicate: loading fails.\<close>

lemma zip_load_entries_true_duplicate:
  "zip_load_entries test_env
     (zip_alloc_hashtable (new_ZIPinfo \<lparr>io_data = c7_record [0x61] @ c7_record [0x61], io_pos = 0\<rparr>) 2)
     0 0 2 = Inl ERR_CORRUPT"
proof -
  let ?d = "c7_record [0x61] @ c7_record [0x61]"
  have l1: "zip_load_entry test_env \<lparr>io_data = ?d, io_pos = 0\<rparr> False 0 =
      Inr (c7_file [0x61], \<lparr>io_data = ?d, io_pos = 47\<rparr>)"
    by (simp add: load_entry_eval io_eval c7_record_def c7_file_def test_env_def
          cong: eval_congs)
  have l2: "zip_load_entry test_env \<lparr>io_data = ?d, io_pos = 47\<rparr> False 0 =
      Inr (c7_file [0x61], \<lparr>io_data = ?d, io_pos = 94\<rparr>)"
    by (simp add: load_entry_eval io_eval c7_record_def c7_file_def test_env_def
          cong: eval_congs)
  have a: "zip_alloc_hashtable (new_ZIPinfo \<lparr>io_data = ?d, io_pos = 0\<rparr>) 2 =
      \<lparr>info_io = \<lparr>io_data = ?d, io_pos = 0\<rparr>,
       entries = [zero_entry\<lparr>resolved := ZIP_DIRECTORY\<rparr>], hash = [[]], zip64 = False,
       has_crypto = False\<rparr>"
    by (simp add: zip_alloc_hashtable_def new_ZIPinfo_def Let_def)
  have s: "io_seek \<lparr>io_data = ?d, io_pos = 0\<rparr> 0 = Inr \<lparr>io_data = ?d, io_pos = 0\<rparr>"
    by (simp add: io_seek_def)
  have e: "hashString test_env = (\<lambda>s. 0)"
      "utf8stricmp test_env = (\<lambda>a b. if a = b then 0 else 1)"
    by (simp_all add: test_env_def)
  have u: "unat (2 :: u64) = Suc (Suc 0)" by simp
  have z: "unat (0 :: u64) = 0" by simp
  show ?thesis
    unfolding zip_load_entries_def a u
    apply (simp only: z ZIPinfo.simps s ebind_Inr)
    apply (subst zip_load_entries_loop.simps)
    apply (simp add: l1)
    apply (simp add: zip_find_entry_def zip_hash_string_def c7_file_def e Let_def
          zip_hash_ancestors.simps zip_hash_entry.simps
          strrchr.simps CH_SLASH_def zip_entry_is_tradional_crypto_def
          zero_entry_def cong: eval_congs)
    apply (subst zip_load_entries_loop.simps)
    apply (simp add: l2 [unfolded c7_file_def zero_entry_def])
    apply (simp add: zip_find_entry_def zip_hash_string_def e Let_def)
    done
qed

section \<open>Passwords at the opening of an entry\<close>





















end
